theory Spec2Isabelle
  imports Main
begin

text \<open>
  The outbound queue of the Snowplow JavaScript tracker, \<open>src/js/out_queue.js\<close>: the
  payload codec (\<open>getBody\<close>, \<open>getQuerystring\<close>), the batcher
  (\<open>chooseHowManyToExecute\<close>), and the queue manager with its two operations
  (\<open>enqueueRequest\<close>, \<open>executeQueue\<close>) and the callbacks of its network calls.
  The manager's variables are a record that every operation takes and returns; an
  exception is a value returned beside the state it leaves.
\<close>

section \<open>JavaScript values and strings\<close>

text \<open>
  A JavaScript string is a sequence of UTF-16 code units, and \<open>.length\<close> counts code
  units. A code unit is a natural number below 65536. ASCII literals of the source are
  written \<open>ascii ''...''\<close>.
\<close>

type_synonym jsstring = "nat list"

definition ascii :: "string \<Rightarrow> jsstring" where
  "ascii s = map of_char s"

text \<open>
  The values that \<open>JSON.parse\<close> can produce and that the tracker passes around.
  \<open>JNum n\<close> is the Number that the integer numeral \<open>n\<close> denotes: \<open>n\<close> itself when a
  double holds it exactly, the nearest double otherwise (see \<open>roundToDouble\<close>); fractions
  are outside the model. An object is a plain object, given by the list of its own
  enumerable properties in enumeration order; every value of a property is again one of
  these values, so no property holds a function, and no property is named \<open>__proto__\<close>.
\<close>

datatype jsval =
    JNull
  | JBool bool
  | JNum int
  | JStr jsstring
  | JArr "jsval list"
  | JObj "(jsstring \<times> jsval) list"

type_synonym jsobject = "(jsstring \<times> jsval) list"

text \<open>
  What can be thrown: the TypeError of a property read on \<open>null\<close>, the URIError of
  \<open>encodeURIComponent\<close>, and the message of \<open>executeQueue\<close> that no collector is
  configured. \<open>Unsupported\<close> is not an exception: it marks a computation the model does
  not follow (see \<open>plusAssign\<close>).
\<close>

datatype error =
    TypeError
  | URIError
  | NoCollector
  | Unsupported

text \<open>The \<open>typeof\<close> operator: \<open>null\<close> and arrays are of type \<open>object\<close>.\<close>

fun typeof :: "jsval \<Rightarrow> jsstring" where
  "typeof JNull = ascii ''object''"
| "typeof (JBool b) = ascii ''boolean''"
| "typeof (JNum n) = ascii ''number''"
| "typeof (JStr s) = ascii ''string''"
| "typeof (JArr xs) = ascii ''object''"
| "typeof (JObj kvs) = ascii ''object''"

subsection \<open>Numbers\<close>

text \<open>
  A Number is a double. The model keeps the integer-valued doubles, the two infinities
  and NaN. The sum of two integer-valued doubles is their exact sum rounded to the nearest
  double, ties to the even significand of 53 bits, and infinite from \<open>2 ^ 1024\<close> on.
\<close>

datatype jsnum = Num int | NaN | PosInfinity | NegInfinity

function bitLength :: "int \<Rightarrow> nat" where
  "bitLength m = (if m \<le> 0 then 0 else Suc (bitLength (m div 2)))"
  by pat_completeness auto
termination
  by (relation "measure nat") auto

definition roundToDouble :: "int \<Rightarrow> jsnum" where
  "roundToDouble x =
     (let m = \<bar>x\<bar>; l = bitLength m in
      if l \<le> 53 then Num x
      else
        (let e = l - 53;
             q = m div 2 ^ e;
             r = m mod 2 ^ e;
             h = 2 ^ (e - 1);
             q' = (if r > h \<or> (r = h \<and> odd q) then q + 1 else q);
             v = q' * 2 ^ e
         in if v \<ge> 2 ^ 1024 then (if x < 0 then NegInfinity else PosInfinity)
            else Num (sgn x * v)))"

fun addNumber :: "jsnum \<Rightarrow> jsnum \<Rightarrow> jsnum" where
  "addNumber (Num a) (Num b) = roundToDouble (a + b)"
| "addNumber NaN y = NaN"
| "addNumber x NaN = NaN"
| "addNumber PosInfinity NegInfinity = NaN"
| "addNumber NegInfinity PosInfinity = NaN"
| "addNumber PosInfinity y = PosInfinity"
| "addNumber NegInfinity y = NegInfinity"
| "addNumber x PosInfinity = PosInfinity"
| "addNumber x NegInfinity = NegInfinity"

subsection \<open>Number and value to string\<close>

text \<open>The decimal digits of an integer that is not negative.\<close>

function digitsOf :: "int \<Rightarrow> jsstring" where
  "digitsOf m = (if m < 10 then [48 + nat m] else digitsOf (m div 10) @ [48 + nat (m mod 10)])"
  by pat_completeness auto
termination
  by (relation "measure nat") auto

text \<open>
  The string form of a Number (ECMAScript 5.1, clause 9.8.1, with the digits chosen as
  its note recommends and as the engines do): the shortest decimal \<open>s * 10 ^ (n - k)\<close> that
  the double \<open>m\<close> is the nearest double of, the closest to \<open>m\<close> among the shortest ones,
  printed in full when it has at most 21 digits and with an exponent otherwise. For an
  integer \<open>m\<close> the candidates with \<open>k\<close> digits are \<open>m\<close> cut after \<open>k\<close> digits and the next
  such number.
\<close>

definition roundsTo :: "int \<Rightarrow> int \<Rightarrow> bool" where
  "roundsTo c m = (roundToDouble c = Num m)"

function shortest :: "int \<Rightarrow> nat \<Rightarrow> nat \<Rightarrow> int" where
  "shortest m digits k =
     (if k \<ge> digits then m
      else
        (let scale = 10 ^ (digits - k);
             lo = (m div scale) * scale;
             hi = lo + scale
         in if roundsTo lo m \<and> roundsTo hi m then
              (if m - lo < hi - m then lo
               else if hi - m < m - lo then hi
               else if even (m div scale) then lo else hi)
            else if roundsTo lo m then lo
            else if roundsTo hi m then hi
            else shortest m digits (Suc k)))"
  by pat_completeness auto
termination
  by (relation "measure (\<lambda>(m, digits, k). digits - k)") auto

fun stripZeros :: "jsstring \<Rightarrow> jsstring" where
  "stripZeros ds = (if ds \<noteq> [] \<and> last ds = 48 then stripZeros (butlast ds) else ds)"

text \<open>The string form of a double \<open>m\<close> that is an integer and not negative.\<close>

definition doubleToString :: "int \<Rightarrow> jsstring" where
  "doubleToString m =
     (let ds = digitsOf (shortest m (length (digitsOf m)) 1);
          n = length ds
      in if n \<le> 21 then ds
         else
           (case stripZeros ds of
              [] \<Rightarrow> ds
            | [d] \<Rightarrow> [d] @ ascii ''e+'' @ digitsOf (int (n - 1))
            | d # rest \<Rightarrow> [d] @ ascii ''.'' @ rest @ ascii ''e+'' @ digitsOf (int (n - 1))))"

definition numberToString :: "int \<Rightarrow> jsstring" where
  "numberToString i =
     (case roundToDouble i of
        Num v \<Rightarrow> (if v < 0 then ascii ''-'' @ doubleToString (- v) else doubleToString v)
      | NaN \<Rightarrow> ascii ''NaN''
      | PosInfinity \<Rightarrow> ascii ''Infinity''
      | NegInfinity \<Rightarrow> ascii ''-Infinity'')"

fun joinWith :: "jsstring \<Rightarrow> jsstring list \<Rightarrow> jsstring" where
  "joinWith sep [] = []"
| "joinWith sep [x] = x"
| "joinWith sep (x # y # ys) = x @ sep @ joinWith sep (y # ys)"

text \<open>The first error of a list of results, evaluated from left to right.\<close>

fun sequence :: "(error + 'a) list \<Rightarrow> error + 'a list" where
  "sequence [] = Inr []"
| "sequence (x # xs) =
     (case x of
        Inl e \<Rightarrow> Inl e
      | Inr v \<Rightarrow> (case sequence xs of Inl e \<Rightarrow> Inl e | Inr vs \<Rightarrow> Inr (v # vs)))"

text \<open>
  The conversion of a value to a string, as string concatenation and
  \<open>encodeURIComponent\<close> apply it to their argument. An array is joined with commas, its
  \<open>null\<close> elements printed as the empty string. A plain object answers
  \<open>[object Object]\<close> through \<open>Object.prototype.toString\<close>, unless it has a property
  \<open>toString\<close> of its own: that property is no function, and the conversion throws a
  TypeError.
\<close>

fun ToString :: "jsval \<Rightarrow> error + jsstring" where
  "ToString JNull = Inr (ascii ''null'')"
| "ToString (JBool b) = Inr (if b then ascii ''true'' else ascii ''false'')"
| "ToString (JNum n) = Inr (numberToString n)"
| "ToString (JStr s) = Inr s"
| "ToString (JArr xs) =
     (case sequence (map (\<lambda>x. if x = JNull then Inr [] else ToString x) xs) of
        Inl e \<Rightarrow> Inl e
      | Inr ss \<Rightarrow> Inr (joinWith (ascii '','') ss))"
| "ToString (JObj kvs) =
     (if ascii ''toString'' \<in> fst ` set kvs then Inl TypeError else Inr (ascii ''[object Object]''))"

text \<open>
  The method call \<open>v.toString()\<close>: a TypeError on \<open>null\<close>, which has no properties, and on
  an object whose own \<open>toString\<close> is no function; otherwise the method of the prototype,
  which answers as the conversion does.
\<close>

definition toString :: "jsval \<Rightarrow> error + jsstring" where
  "toString v = (if v = JNull then Inl TypeError else ToString v)"

subsection \<open>JSON serialization\<close>

text \<open>
  \<open>json2.stringify\<close> comes from the external module \<open>JSON\<close>. It is modelled after
  ECMAScript 5.1, clause 15.12.3: a string is quoted, with the quotation mark, the
  backslash and the control characters below U+0020 escaped. (The script \<open>json2.js\<close>
  escapes some further code points from U+007F on; no property below depends on them.)
\<close>

definition hexDigit :: "nat \<Rightarrow> nat" where
  "hexDigit d = (if d < 10 then 48 + d else 87 + d)"

definition quoteChar :: "nat \<Rightarrow> jsstring" where
  "quoteChar c =
     (if c = 34 then [92, 34]
      else if c = 92 then [92, 92]
      else if c = 8 then [92, 98]
      else if c = 12 then [92, 102]
      else if c = 10 then [92, 110]
      else if c = 13 then [92, 114]
      else if c = 9 then [92, 116]
      else if c < 32 then [92, 117, 48, 48, hexDigit (c div 16), hexDigit (c mod 16)]
      else [c])"

definition quote :: "jsstring \<Rightarrow> jsstring" where
  "quote s = [34] @ concat (map quoteChar s) @ [34]"

fun stringify :: "jsval \<Rightarrow> jsstring" where
  "stringify JNull = ascii ''null''"
| "stringify (JBool b) = (if b then ascii ''true'' else ascii ''false'')"
| "stringify (JNum n) =
     (case roundToDouble n of Num v \<Rightarrow> numberToString n | _ \<Rightarrow> ascii ''null'')"
| "stringify (JStr s) = quote s"
| "stringify (JArr xs) = ascii ''['' @ joinWith (ascii '','') (map stringify xs) @ ascii '']''"
| "stringify (JObj kvs) =
     ascii ''{'' @ joinWith (ascii '','') (map (\<lambda>(k, v). quote k @ ascii '':'' @ stringify v) kvs) @ ascii ''}''"

text \<open>
  The number of bytes of a string in UTF-8, the encoding in which the POST body is
  sent: one to three bytes for a code unit of the basic plane, four for a surrogate pair,
  three for a lone surrogate (sent as U+FFFD).
\<close>

definition highSurrogate :: "nat \<Rightarrow> bool" where
  "highSurrogate c = (55296 \<le> c \<and> c < 56320)"

definition lowSurrogate :: "nat \<Rightarrow> bool" where
  "lowSurrogate c = (56320 \<le> c \<and> c < 57344)"

fun utf8_length :: "jsstring \<Rightarrow> nat" where
  "utf8_length [] = 0"
| "utf8_length (c # cs) =
     (if c < 128 then 1 + utf8_length cs
      else if c < 2048 then 2 + utf8_length cs
      else if highSurrogate c then
        (case cs of
           [] \<Rightarrow> 3
         | d # ds \<Rightarrow> if lowSurrogate d then 4 + utf8_length ds else 3 + utf8_length cs)
      else 3 + utf8_length cs)"

section \<open>PayloadCodec: getBody\<close>

record body =
  cleanedRequest :: jsobject
  memorySize :: int

text \<open>\<open>lodash.mapValues(request, function (v) { return v.toString(); })\<close>\<close>

fun mapValues_toString :: "jsobject \<Rightarrow> error + jsobject" where
  "mapValues_toString [] = Inr []"
| "mapValues_toString ((k, v) # kvs) =
     (case toString v of
        Inl e \<Rightarrow> Inl e
      | Inr s \<Rightarrow>
          (case mapValues_toString kvs of
             Inl e \<Rightarrow> Inl e
           | Inr r \<Rightarrow> Inr ((k, JStr s) # r)))"

definition getBody :: "jsobject \<Rightarrow> error + body" where
  "getBody request =
     (case mapValues_toString request of
        Inl e \<Rightarrow> Inl e
      | Inr cleaned \<Rightarrow>
          Inr \<lparr>cleanedRequest = cleaned, memorySize = int (length (stringify (JObj cleaned)))\<rparr>)"

text \<open>The object \<open>{cleanedRequest: ..., memorySize: ...}\<close> that is pushed on the queue.\<close>

definition bodyObject :: "body \<Rightarrow> jsval" where
  "bodyObject b =
     JObj [(ascii ''cleanedRequest'', JObj (cleanedRequest b)), (ascii ''memorySize'', JNum (memorySize b))]"

section \<open>Batcher: chooseHowManyToExecute\<close>

text \<open>
  Reading a property that is not built in: a TypeError on \<open>null\<close>, the stored value on
  an object that has it, \<open>undefined\<close> (here \<open>None\<close>) everywhere else.
\<close>

fun getProp :: "jsval \<Rightarrow> jsstring \<Rightarrow> error + jsval option" where
  "getProp JNull name = Inl TypeError"
| "getProp (JObj kvs) name = Inr (map_of kvs name)"
| "getProp v name = Inr None"

text \<open>
  The running total \<open>byteCount\<close> is a Number. \<open>byteCount += m\<close> adds a Number, \<open>null\<close>
  as 0 and a boolean as 0 or 1; \<open>undefined\<close> gives NaN. With a string, an array or an
  object the operator converts \<open>m\<close> to a string (which may throw) and concatenates; the
  model does not follow a total that has become a string, and answers \<open>Unsupported\<close>.
\<close>

fun plusAssign :: "jsnum \<Rightarrow> jsval option \<Rightarrow> error + jsnum" where
  "plusAssign b None = Inr (addNumber b NaN)"
| "plusAssign b (Some JNull) = Inr (addNumber b (Num 0))"
| "plusAssign b (Some (JBool t)) = Inr (addNumber b (Num (if t then 1 else 0)))"
| "plusAssign b (Some (JNum n)) = Inr (addNumber b (roundToDouble n))"
| "plusAssign b (Some v) = (case ToString v of Inl e \<Rightarrow> Inl e | Inr s \<Rightarrow> Inl Unsupported)"

text \<open>
  \<open>byteCount >= maxBytes\<close>, where \<open>maxBytes\<close> is a finite Number: every comparison with
  NaN is false.
\<close>

fun geq :: "jsnum \<Rightarrow> int \<Rightarrow> bool" where
  "geq NaN m = False"
| "geq (Num b) m = (b \<ge> m)"
| "geq PosInfinity m = True"
| "geq NegInfinity m = False"

text \<open>
  The loop of \<open>chooseHowManyToExecute\<close>, with its two variables as arguments; the
  byte budget \<open>maxBytes\<close>, a variable of the enclosing function, is the first argument.
\<close>

function chooseLoop :: "int \<Rightarrow> jsval list \<Rightarrow> nat \<Rightarrow> jsnum \<Rightarrow> error + nat" where
  "chooseLoop maxBytes q numberToSend byteCount =
     (if numberToSend < length q then
        (case getProp (q ! numberToSend) (ascii ''memorySize'') of
           Inl e \<Rightarrow> Inl e
         | Inr m \<Rightarrow>
             (case plusAssign byteCount m of
                Inl e \<Rightarrow> Inl e
              | Inr byteCount' \<Rightarrow>
                  if geq byteCount' maxBytes then Inr numberToSend
                  else chooseLoop maxBytes q (numberToSend + 1) byteCount'))
      else Inr numberToSend)"
  by pat_completeness auto
termination
  by (relation "measure (\<lambda>(maxBytes, q, numberToSend, byteCount). length q - numberToSend)") auto

definition chooseHowManyToExecute :: "int \<Rightarrow> jsval list \<Rightarrow> error + nat" where
  "chooseHowManyToExecute maxBytes q = chooseLoop maxBytes q 0 (Num 0)"

section \<open>PayloadCodec: getQuerystring\<close>

text \<open>
  \<open>encodeURIComponent\<close> (ECMAScript 5.1, clause 15.1.3): the unreserved characters stay,
  every other code point is written as the percent-escaped bytes of its UTF-8 form, and a
  surrogate that is not part of a pair is a URIError.
\<close>

definition uriUnescaped :: "nat \<Rightarrow> bool" where
  "uriUnescaped c =
     ((65 \<le> c \<and> c \<le> 90) \<or> (97 \<le> c \<and> c \<le> 122) \<or> (48 \<le> c \<and> c \<le> 57)
      \<or> c \<in> set (ascii ''-_.!~*'' @ [39] @ ascii ''()''))"

definition hexUpper :: "nat \<Rightarrow> nat" where
  "hexUpper d = (if d < 10 then 48 + d else 55 + d)"

definition percent :: "nat \<Rightarrow> jsstring" where
  "percent b = [37, hexUpper (b div 16), hexUpper (b mod 16)]"

definition utf8Octets :: "nat \<Rightarrow> nat list" where
  "utf8Octets v =
     (if v < 128 then [v]
      else if v < 2048 then [192 + v div 64, 128 + v mod 64]
      else if v < 65536 then [224 + v div 4096, 128 + (v div 64) mod 64, 128 + v mod 64]
      else [240 + v div 262144, 128 + (v div 4096) mod 64, 128 + (v div 64) mod 64, 128 + v mod 64])"

definition escapeCodePoint :: "nat \<Rightarrow> jsstring" where
  "escapeCodePoint v = concat (map percent (utf8Octets v))"

fun encodeUnits :: "jsstring \<Rightarrow> error + jsstring" where
  "encodeUnits [] = Inr []"
| "encodeUnits (c # cs) =
     (if uriUnescaped c then
        (case encodeUnits cs of Inl e \<Rightarrow> Inl e | Inr r \<Rightarrow> Inr (c # r))
      else if lowSurrogate c then Inl URIError
      else if highSurrogate c then
        (case cs of
           [] \<Rightarrow> Inl URIError
         | d # ds \<Rightarrow>
             if lowSurrogate d then
               (case encodeUnits ds of
                  Inl e \<Rightarrow> Inl e
                | Inr r \<Rightarrow> Inr (escapeCodePoint ((c - 55296) * 1024 + (d - 56320) + 65536) @ r))
             else Inl URIError)
      else
        (case encodeUnits cs of Inl e \<Rightarrow> Inl e | Inr r \<Rightarrow> Inr (escapeCodePoint c @ r)))"

definition encodeURIComponent :: "jsval \<Rightarrow> error + jsstring" where
  "encodeURIComponent v = (case ToString v of Inl e \<Rightarrow> Inl e | Inr s \<Rightarrow> encodeUnits s)"

definition lowPriorityKeys :: "jsstring list" where
  "lowPriorityKeys = [ascii ''co'', ascii ''cx'']"

text \<open>
  \<open>request.hasOwnProperty(key)\<close> calls the property \<open>hasOwnProperty\<close> of the request: the
  method of the prototype, unless the request has a property of that name of its own,
  which is no function.
\<close>

definition hasOwnProperty :: "jsobject \<Rightarrow> jsstring \<Rightarrow> error + bool" where
  "hasOwnProperty request key =
     (if ascii ''hasOwnProperty'' \<in> fst ` set request then Inl TypeError
      else Inr (key \<in> fst ` set request))"

text \<open>
  The first loop of \<open>getQuerystring\<close>, over the properties of the request still to visit,
  with \<open>querystring\<close> and \<open>firstPair\<close> as arguments.
\<close>

fun requestLoop :: "jsobject \<Rightarrow> jsobject \<Rightarrow> jsstring \<Rightarrow> bool \<Rightarrow> error + jsstring" where
  "requestLoop request [] querystring firstPair = Inr querystring"
| "requestLoop request ((key, v) # rest) querystring firstPair =
     (case hasOwnProperty request key of
        Inl e \<Rightarrow> Inl e
      | Inr own \<Rightarrow>
          if own \<and> key \<notin> set lowPriorityKeys then
            (case encodeURIComponent (JStr key) of
               Inl e \<Rightarrow> Inl e
             | Inr ek \<Rightarrow>
                 (case encodeURIComponent v of
                    Inl e \<Rightarrow> Inl e
                  | Inr ev \<Rightarrow>
                      requestLoop request rest
                        ((if \<not> firstPair then querystring @ ascii ''&'' else querystring) @ ek @ ascii ''='' @ ev)
                        False))
          else requestLoop request rest querystring firstPair)"

text \<open>The second loop, over \<open>lowPriorityKeys\<close>.\<close>

fun contextLoop :: "jsstring list \<Rightarrow> jsobject \<Rightarrow> jsstring \<Rightarrow> error + jsstring" where
  "contextLoop [] request querystring = Inr querystring"
| "contextLoop (contextKey # ks) request querystring =
     (case hasOwnProperty request contextKey of
        Inl e \<Rightarrow> Inl e
      | Inr own \<Rightarrow>
          (case (if own then map_of request contextKey else None) of
             None \<Rightarrow> contextLoop ks request querystring
           | Some v \<Rightarrow>
               (case encodeURIComponent v of
                  Inl e \<Rightarrow> Inl e
                | Inr ev \<Rightarrow>
                    contextLoop ks request (querystring @ ascii ''&'' @ contextKey @ ascii ''='' @ ev))))"

definition getQuerystring :: "jsobject \<Rightarrow> error + jsstring" where
  "getQuerystring request =
     (case requestLoop request request (ascii ''?'') True of
        Inl e \<Rightarrow> Inl e
      | Inr querystring \<Rightarrow> contextLoop lowPriorityKeys request querystring)"

section \<open>DurableStore: localStorage\<close>

text \<open>
  A stored text is kept as what \<open>json2.parse\<close> makes of it: a value, or a parse error.
  The queue is written as \<open>json2.stringify(outQueue)\<close>, a text that parses back to the
  same array.
\<close>

datatype stored = Unparseable | Json jsval

record store =
  items :: "(jsstring \<times> stored) list"
  writable :: bool

fun setItem :: "jsstring \<Rightarrow> stored \<Rightarrow> (jsstring \<times> stored) list \<Rightarrow> (jsstring \<times> stored) list" where
  "setItem k v [] = [(k, v)]"
| "setItem k v ((k', v') # kvs) = (if k = k' then (k, v) # kvs else (k', v') # setItem k v kvs)"

text \<open>
  Modelled from the spec: \<open>helpers.attemptWriteLocalStorage\<close> (in \<open>lib/helpers\<close>) writes the
  record under the key and returns whether the write succeeded; a store that refuses
  writes is left as it is.
\<close>

definition attemptWriteLocalStorage :: "jsstring \<Rightarrow> jsval \<Rightarrow> store \<Rightarrow> bool \<times> store" where
  "attemptWriteLocalStorage key v ls =
     (if writable ls then (True, ls\<lparr>items := setItem key (Json v) (items ls)\<rparr>) else (False, ls))"

text \<open>
  \<open>json2.parse(localStorage.getItem(queueName))\<close> inside \<open>try\<close>, followed by the
  \<open>isArray\<close> test: a missing key reads as \<open>null\<close>.
\<close>

definition loadQueue :: "jsstring \<Rightarrow> store \<Rightarrow> jsval list" where
  "loadQueue key ls =
     (case map_of (items ls) key of
        Some (Json (JArr q)) \<Rightarrow> q
      | _ \<Rightarrow> [])"

section \<open>The queue manager\<close>

record config =
  usePost :: bool
  useLocalStorage :: bool
  bufferSize :: int
  queueName :: jsstring
  path :: jsstring
  maxBytes :: int
  flusherRegistered :: bool

text \<open>
  A network call the manager has made, with what its callbacks captured. For an
  \<open>XMLHttpRequest\<close>: the address, the body sent (\<open>None\<close> when \<open>send\<close> was not
  called), \<open>numberToSend\<close>, whether the 5 second timer is still set, and whether the
  outcome has been delivered. For an image: its \<open>src\<close> and whether the outcome has been
  delivered.
\<close>

datatype netcall =
    Xhr jsstring "jsstring option" nat bool bool
  | Img jsstring bool

text \<open>
  The variables of a manager, with the store it works on, the warnings it has emitted and
  the network calls it has made. (The array \<open>outQueue\<close> is also pushed on
  \<open>mutSnowplowState.outQueues\<close>, which only reads it.)
\<close>

record state =
  outQueue :: "jsval list"
  executingQueue :: bool
  configCollectorUrl :: "jsstring option"
  localStorage :: store
  warnings :: "jsstring list"
  network :: "netcall list"

text \<open>
  The constructor. \<open>cors\<close> is whether \<open>XMLHttpRequest\<close> exists and has \<open>withCredentials\<close>,
  \<open>localStorageAccessible\<close> the answer of the detector of that name. The closure that is
  pushed on \<open>bufferFlushers\<close> is \<open>bufferFlusher\<close> below.
\<close>

definition OutQueueManager ::
  "jsstring \<Rightarrow> jsstring \<Rightarrow> bool \<Rightarrow> bool \<Rightarrow> int \<Rightarrow> bool \<Rightarrow> bool \<Rightarrow> store \<Rightarrow> config \<times> state" where
  "OutQueueManager functionName namespace useLocalStorage0 usePost0 bufferSize0 cors localStorageAccessible ls =
     (let usePost1 = (usePost0 \<and> cors);
          bufferSize1 =
            (if localStorageAccessible \<and> useLocalStorage0 \<and> usePost1 \<and> bufferSize0 \<noteq> 0 then bufferSize0 else 1);
          queueName1 =
            joinWith (ascii ''_'')
              [ascii ''snowplowOutQueue'', functionName, namespace, if usePost1 then ascii ''post'' else ascii ''get'']
      in (\<lparr>usePost = usePost1,
           useLocalStorage = useLocalStorage0,
           bufferSize = bufferSize1,
           queueName = queueName1,
           path = (if usePost1 then ascii ''/com.snowplowanalytics.snowplow/tp2'' else ascii ''/i''),
           maxBytes = 40000,
           flusherRegistered = (usePost1 \<and> bufferSize1 > 1)\<rparr>,
          \<lparr>outQueue = (if useLocalStorage0 then loadQueue queueName1 ls else []),
           executingQueue = False,
           configCollectorUrl = None,
           localStorage = ls,
           warnings = [],
           network = []\<rparr>))"

text \<open>
  \<open>helpers.attemptWriteLocalStorage(queueName, json2.stringify(outQueue))\<close> behind
  \<open>if (useLocalStorage)\<close>; the boolean is \<open>savedToLocalStorage\<close>.
\<close>

definition persist :: "config \<Rightarrow> state \<Rightarrow> bool \<times> state" where
  "persist cfg s =
     (if useLocalStorage cfg then
        (case attemptWriteLocalStorage (queueName cfg) (JArr (outQueue s)) (localStorage s) of
           (saved, ls) \<Rightarrow> (saved, s\<lparr>localStorage := ls\<rparr>))
      else (False, s))"

subsection \<open>executeQueue\<close>

text \<open>The failsafe loop at the head of \<open>executeQueue\<close>.\<close>

fun scrub :: "jsval list \<Rightarrow> jsval list" where
  "scrub [] = []"
| "scrub (v # vs) =
     (if typeof v \<noteq> ascii ''string'' \<and> typeof v \<noteq> ascii ''object'' then scrub vs else v # vs)"

text \<open>
  \<open>lodash.map(outQueue.slice(0, numberToSend), function (x) { return x.cleanedRequest; })\<close>;
  an element that is \<open>undefined\<close> is kept as \<open>null\<close>, which is how \<open>stringify\<close>
  prints it inside an array.
\<close>

fun cleanedRequests :: "jsval list \<Rightarrow> error + jsval list" where
  "cleanedRequests [] = Inr []"
| "cleanedRequests (x # xs) =
     (case getProp x (ascii ''cleanedRequest'') of
        Inl e \<Rightarrow> Inl e
      | Inr c \<Rightarrow>
          (case cleanedRequests xs of
             Inl e \<Rightarrow> Inl e
           | Inr r \<Rightarrow> Inr ((case c of None \<Rightarrow> JNull | Some v \<Rightarrow> v) # r)))"

definition batchRequest :: "jsval list \<Rightarrow> jsval" where
  "batchRequest batch =
     JObj [(ascii ''schema'', JStr (ascii ''iglu:com.snowplowanalytics.snowplow/payload_data/jsonschema/1-0-2'')),
           (ascii ''data'', JArr batch)]"

text \<open>
  The result is the exception thrown, if any, and the state left behind. An exception
  in the POST branch leaves the request opened and its timer set, but nothing sent; one
  in the GET branch, thrown by \<open>configCollectorUrl + nextRequest\<close>, leaves the image
  without an address.
\<close>

definition executeQueue :: "config \<Rightarrow> state \<Rightarrow> error option \<times> state" where
  "executeQueue cfg s =
     (case scrub (outQueue s) of
        [] \<Rightarrow> (None, s\<lparr>outQueue := [], executingQueue := False\<rparr>)
      | nextRequest # rest \<Rightarrow>
          (let s1 = s\<lparr>outQueue := nextRequest # rest\<rparr> in
           case configCollectorUrl s1 of
             None \<Rightarrow> (Some NoCollector, s1)
           | Some collectorUrl \<Rightarrow>
               (let s2 = s1\<lparr>executingQueue := True\<rparr> in
                if usePost cfg then
                  (case chooseHowManyToExecute (maxBytes cfg) (outQueue s2) of
                     Inl e \<Rightarrow> (Some e, s2\<lparr>network := network s2 @ [Xhr collectorUrl None 0 True False]\<rparr>)
                   | Inr n \<Rightarrow>
                       (case cleanedRequests (take n (outQueue s2)) of
                          Inl e \<Rightarrow> (Some e, s2\<lparr>network := network s2 @ [Xhr collectorUrl None n True False]\<rparr>)
                        | Inr batch \<Rightarrow>
                            (None,
                             s2\<lparr>network := network s2 @
                                  [Xhr collectorUrl
                                     (if length batch > 0 then Some (stringify (batchRequest batch)) else None)
                                     n True False]\<rparr>)))
                else
                  (case ToString nextRequest of
                     Inl e \<Rightarrow> (Some e, s2)
                   | Inr t \<Rightarrow> (None, s2\<lparr>network := network s2 @ [Img (collectorUrl @ t) False]\<rparr>)))))"

text \<open>The closure registered in \<open>bufferFlushers\<close>.\<close>

definition bufferFlusher :: "config \<Rightarrow> state \<Rightarrow> error option \<times> state" where
  "bufferFlusher cfg s = (if \<not> executingQueue s then executeQueue cfg s else (None, s))"

subsection \<open>The callbacks of a network call\<close>

text \<open>
  Each callback belongs to the network call at index \<open>i\<close>. A callback the browser
  cannot deliver (no such call, a call that is completed, a timer that is cleared) leaves
  the state as it is.
\<close>

definition xhr_onreadystatechange :: "config \<Rightarrow> nat \<Rightarrow> nat \<Rightarrow> int \<Rightarrow> state \<Rightarrow> error option \<times> state" where
  "xhr_onreadystatechange cfg i readyState status s =
     (if i < length (network s) then
        (case network s ! i of
           Xhr u (Some b) k t False \<Rightarrow>
             if readyState = 4 \<and> status \<ge> 200 \<and> status < 400 then
               (let s1 = s\<lparr>outQueue := drop k (outQueue s)\<rparr>;
                    s2 = snd (persist cfg s1);
                    s3 = s2\<lparr>network := (network s2)[i := Xhr u (Some b) k False True]\<rparr>
                in executeQueue cfg s3)
             else if readyState = 4 \<and> status \<ge> 400 then
               (None, s\<lparr>executingQueue := False, network := (network s)[i := Xhr u (Some b) k False True]\<rparr>)
             else (None, s\<lparr>network := (network s)[i := Xhr u (Some b) k t (readyState = 4)]\<rparr>)
         | _ \<Rightarrow> (None, s))
      else (None, s))"

text \<open>The timer: \<open>xhr.abort(); executingQueue = false\<close>.\<close>

definition xhr_timeout :: "config \<Rightarrow> nat \<Rightarrow> state \<Rightarrow> error option \<times> state" where
  "xhr_timeout cfg i s =
     (if i < length (network s) then
        (case network s ! i of
           Xhr u b k True c \<Rightarrow>
             (None, s\<lparr>executingQueue := False, network := (network s)[i := Xhr u b k False True]\<rparr>)
         | _ \<Rightarrow> (None, s))
      else (None, s))"

definition image_onload :: "config \<Rightarrow> nat \<Rightarrow> state \<Rightarrow> error option \<times> state" where
  "image_onload cfg i s =
     (if i < length (network s) then
        (case network s ! i of
           Img u False \<Rightarrow>
             (let s1 = s\<lparr>outQueue := drop 1 (outQueue s)\<rparr>;
                  s2 = snd (persist cfg s1);
                  s3 = s2\<lparr>network := (network s2)[i := Img u True]\<rparr>
              in executeQueue cfg s3)
         | _ \<Rightarrow> (None, s))
      else (None, s))"

definition image_onerror :: "config \<Rightarrow> nat \<Rightarrow> state \<Rightarrow> error option \<times> state" where
  "image_onerror cfg i s =
     (if i < length (network s) then
        (case network s ! i of
           Img u False \<Rightarrow>
             (None, s\<lparr>executingQueue := False, network := (network s)[i := Img u True]\<rparr>)
         | _ \<Rightarrow> (None, s))
      else (None, s))"

text \<open>A network send is in flight when it was issued and its outcome is not yet delivered.\<close>

fun inFlight :: "netcall \<Rightarrow> bool" where
  "inFlight (Xhr u b k t c) = (b \<noteq> None \<and> \<not> c)"
| "inFlight (Img u c) = (\<not> c)"

subsection \<open>enqueueRequest\<close>

text \<open>
  Modelled from the spec: \<open>helpers.warn\<close> (in \<open>lib/helpers\<close>) surfaces its message to the
  caller; the messages are collected in \<open>warnings\<close>, in order.
\<close>

definition warn :: "jsstring \<Rightarrow> state \<Rightarrow> state" where
  "warn message s = s\<lparr>warnings := warnings s @ [message]\<rparr>"

definition sizeWarning :: "int \<Rightarrow> int \<Rightarrow> jsstring" where
  "sizeWarning sz limit =
     ascii ''Event of size '' @ numberToString sz @ ascii '' is too long - the maximum size is ''
       @ numberToString limit"

text \<open>
  From the second \<open>outQueue.push\<close> (line 159) to the end of \<open>enqueueRequest\<close>, on the
  state the first push has left.
\<close>

definition enqueueRest :: "config \<Rightarrow> jsobject \<Rightarrow> jsstring \<Rightarrow> state \<Rightarrow> error option \<times> state" where
  "enqueueRest cfg request url s =
     (case (if usePost cfg then map_sum id bodyObject (getBody request)
            else map_sum id JStr (getQuerystring request)) of
        Inl e \<Rightarrow> (Some e, s)
      | Inr entry \<Rightarrow>
          (let s1 = s\<lparr>outQueue := outQueue s @ [entry]\<rparr>;
               s2 = s1\<lparr>configCollectorUrl := Some (url @ path cfg)\<rparr>
           in case persist cfg s2 of
                (savedToLocalStorage, s3) \<Rightarrow>
                  if \<not> executingQueue s3 \<and> (\<not> savedToLocalStorage \<or> int (length (outQueue s3)) \<ge> bufferSize cfg)
                  then executeQueue cfg s3
                  else (None, s3)))"

definition enqueueRequest :: "config \<Rightarrow> jsobject \<Rightarrow> jsstring \<Rightarrow> state \<Rightarrow> error option \<times> state" where
  "enqueueRequest cfg request url s =
     (if usePost cfg then
        (case getBody request of
           Inl e \<Rightarrow> (Some e, s)
         | Inr body \<Rightarrow>
             if memorySize body \<ge> maxBytes cfg then
               (None, warn (sizeWarning (memorySize body) (maxBytes cfg)) s)
             else enqueueRest cfg request url (s\<lparr>outQueue := outQueue s @ [bodyObject body]\<rparr>))
      else
        (case getQuerystring request of
           Inl e \<Rightarrow> (Some e, s)
         | Inr querystring \<Rightarrow>
             enqueueRest cfg request url (s\<lparr>outQueue := outQueue s @ [JStr querystring]\<rparr>)))"

text \<open>The sum of \<open>memorySize\<close> over the first \<open>j\<close> entries of a queue of bodies.\<close>

definition prefixSize :: "body list \<Rightarrow> nat \<Rightarrow> int" where
  "prefixSize bs j = sum_list (map memorySize (take j bs))"

section \<open>Example instances\<close>

text \<open>
  Two managers built by the constructor over a given store, with durable storage on and
  a buffer size of 1: one sending by POST, one by GET. The function name is \<open>sp\<close>, the
  namespace \<open>cf\<close>; \<open>XMLHttpRequest\<close> supports CORS and \<open>localStorage\<close> is accessible.
  They are the concrete inputs of the evaluations below.
\<close>

definition emptyStore :: store where
  "emptyStore = \<lparr>items = [], writable = True\<rparr>"

definition postManager :: "store \<Rightarrow> config \<times> state" where
  "postManager ls = OutQueueManager (ascii ''sp'') (ascii ''cf'') True True 1 True True ls"

definition getManager :: "store \<Rightarrow> config \<times> state" where
  "getManager ls = OutQueueManager (ascii ''sp'') (ascii ''cf'') True False 1 True True ls"

definition collector :: jsstring where
  "collector = ascii ''http://c.example''"

text \<open>A request with the one field \<open>e\<close>.\<close>

definition event :: "string \<Rightarrow> jsobject" where
  "event name = [(ascii ''e'', JStr (ascii name))]"

definition longEvent :: jsobject where
  "longEvent = [(ascii ''e'', JStr (replicate 40000 97))]"

text \<open>
  The keys of these managers, and a store that holds a queue record under a key and
  accepts writes.
\<close>

definition getKey :: jsstring where
  "getKey = ascii ''snowplowOutQueue_sp_cf_get''"

definition postKey :: jsstring where
  "postKey = ascii ''snowplowOutQueue_sp_cf_post''"

definition storeWith :: "jsstring \<Rightarrow> jsval list \<Rightarrow> store" where
  "storeWith key q = \<lparr>items = [(key, Json (JArr q))], writable = True\<rparr>"

text \<open>A POST manager that buffers up to 5 entries before it drains.\<close>

definition batchingManager :: "store \<Rightarrow> config \<times> state" where
  "batchingManager ls = OutQueueManager (ascii ''sp'') (ascii ''cf'') True True 5 True True ls"

section \<open>Properties\<close>

subsection \<open>Basic facts\<close>

lemma ascii_eq_iff [simp]: "ascii s = ascii t \<longleftrightarrow> s = t"
  by (simp add: ascii_def inj_map_eq_map inj_of_char)

lemma getProp_bodyObject_memorySize:
  "getProp (bodyObject b) (ascii ''memorySize'') = Inr (Some (JNum (memorySize b)))"
  by (simp add: bodyObject_def)

lemma getProp_bodyObject_cleanedRequest:
  "getProp (bodyObject b) (ascii ''cleanedRequest'') = Inr (Some (JObj (cleanedRequest b)))"
  by (simp add: bodyObject_def)

subsection \<open>Rounding\<close>

lemma bitLength_le: "m < 2 ^ k \<Longrightarrow> bitLength m \<le> k"
proof (induction k arbitrary: m)
  case 0
  then show ?case by (subst bitLength.simps) simp
next
  case (Suc k)
  have "m div 2 < 2 ^ k" using Suc.prems by simp
  then have "bitLength (m div 2) \<le> k" by (rule Suc.IH)
  then show ?case by (subst bitLength.simps) simp
qed

lemma bitLength_gt: "2 ^ k \<le> m \<Longrightarrow> k < bitLength m"
proof (induction k arbitrary: m)
  case 0
  then show ?case by (subst bitLength.simps) simp
next
  case (Suc k)
  have "2 ^ k \<le> m div 2" using Suc.prems by simp
  then have "k < bitLength (m div 2)" by (rule Suc.IH)
  moreover have "(0::int) < 2 ^ Suc k" by simp
  then have "0 < m" using Suc.prems by linarith
  ultimately show ?case by (subst bitLength.simps) simp
qed

lemma bitLength_lower: "0 < m \<Longrightarrow> 2 ^ bitLength m \<le> 2 * m"
proof (induction m rule: bitLength.induct)
  case (1 m)
  show ?case
  proof (cases "0 < m div 2")
    case True
    then have "2 ^ bitLength (m div 2) \<le> 2 * (m div 2)" using 1 by simp
    also have "\<dots> \<le> m" by simp
    finally show ?thesis using 1(2) by (subst bitLength.simps) simp
  next
    case False
    then have "m = 1" using 1(2) by simp
    then show ?thesis by (subst bitLength.simps, subst bitLength.simps) simp
  qed
qed

lemma roundToDouble_exact: "\<bar>x\<bar> < 2 ^ 53 \<Longrightarrow> roundToDouble x = Num x"
  using bitLength_le [of "\<bar>x\<bar>" 53] by (simp add: roundToDouble_def Let_def)

lemma roundToDouble_large:
  assumes "2 ^ 53 \<le> x" and "mb \<le> 2 ^ 53"
  shows "geq (roundToDouble x) mb"
proof -
  define l where "l = bitLength x"
  define e where "e = l - 53"
  have "(0::int) < 2 ^ 53" by simp
  then have pos: "0 < x" using assms(1) by linarith
  then have x: "\<bar>x\<bar> = x" "sgn x = 1" by simp_all
  have l: "53 < l" using bitLength_gt [of 53 x] assms(1) x by (simp add: l_def)
  then have le: "l = Suc (52 + e)" and e1: "1 \<le> e" by (simp_all add: e_def)
  have "2 ^ l \<le> 2 * x" using bitLength_lower [of x] pos x by (simp add: l_def)
  then have "(2::int) * (2 ^ 52 * 2 ^ e) \<le> 2 * x" by (simp add: le power_add)
  then have m: "(2::int) ^ 52 * 2 ^ e \<le> x" by linarith
  have "(2::int) ^ 52 = (2 ^ 52 * 2 ^ e) div 2 ^ e" by simp
  also have "\<dots> \<le> x div 2 ^ e" using m by (intro zdiv_mono1) simp_all
  finally have q: "2 ^ 52 \<le> x div 2 ^ e" .
  define q' where "q' = (if x mod 2 ^ e > 2 ^ (e - 1) \<or> (x mod 2 ^ e = 2 ^ (e - 1) \<and> odd (x div 2 ^ e))
      then x div 2 ^ e + 1 else x div 2 ^ e)"
  have q': "2 ^ 52 \<le> q'" using q by (simp add: q'_def)
  have "(2::int) ^ 1 \<le> 2 ^ e" using e1 by (intro power_increasing) simp_all
  then have "(2::int) ^ 52 * 2 \<le> q' * 2 ^ e" using q' by (intro mult_mono) simp_all
  then have v: "2 ^ 53 \<le> q' * 2 ^ e" by simp
  have "\<not> l \<le> 53" using l by simp
  then have r: "roundToDouble x = (if q' * 2 ^ e \<ge> 2 ^ 1024 then PosInfinity else Num (q' * 2 ^ e))"
    using pos unfolding roundToDouble_def Let_def x l_def [symmetric] e_def [symmetric] q'_def
    by simp
  show ?thesis
  proof (cases "q' * 2 ^ e \<ge> 2 ^ 1024")
    case True
    then show ?thesis by (simp only: r if_True geq.simps)
  next
    case False
    have "mb \<le> q' * 2 ^ e" using v assms(2) by linarith
    then show ?thesis using False by (simp only: r if_False geq.simps)
  qed
qed

subsection \<open>Budget packing\<close>

lemma prefixSize_Suc: "j < length bs \<Longrightarrow> prefixSize bs (Suc j) = prefixSize bs j + memorySize (bs ! j)"
  by (simp add: prefixSize_def take_Suc_conv_app_nth)

lemma prefixSize_nonneg: "\<forall>b\<in>set bs. 0 \<le> memorySize b \<Longrightarrow> 0 \<le> prefixSize bs j"
  unfolding prefixSize_def by (rule sum_list_nonneg) (auto dest: in_set_takeD)

lemma plusAssign_size:
  assumes "0 \<le> p" and "p < 2 ^ 53" and "0 \<le> sz" and "sz < 2 ^ 53" and "mb \<le> 2 ^ 53"
  shows "\<exists>c. plusAssign (Num p) (Some (JNum sz)) = Inr c \<and> geq c mb = (mb \<le> p + sz)
           \<and> (p + sz < mb \<longrightarrow> c = Num (p + sz))"
proof (cases "p + sz < 2 ^ 53")
  case True
  then have "roundToDouble (p + sz) = Num (p + sz)"
    using assms(1,3) by (intro roundToDouble_exact) simp
  then show ?thesis using assms(3,4) by (simp add: roundToDouble_exact)
next
  case False
  then have "geq (roundToDouble (p + sz)) mb"
    using assms(5) by (intro roundToDouble_large) simp_all
  then show ?thesis using assms(3,4,5) False by (simp add: roundToDouble_exact)
qed

lemma chooseLoop_bodies:
  assumes sizes: "\<forall>b\<in>set bs. 0 \<le> memorySize b \<and> memorySize b < 2 ^ 53" and mb: "mb \<le> 2 ^ 53"
  shows "i \<le> length bs \<Longrightarrow> prefixSize bs i < 2 ^ 53 \<Longrightarrow>
   chooseLoop mb (map bodyObject bs) i (Num (prefixSize bs i)) =
     Inr (i + length (takeWhile (\<lambda>j. prefixSize bs (Suc j) < mb) [i..<length bs]))"
proof (induction "length bs - i" arbitrary: i)
  case 0
  then have "i = length bs" by simp
  then show ?case by (subst chooseLoop.simps) simp
next
  case (Suc d)
  then have lt: "i < length bs" by simp
  have upt: "[i..<length bs] = i # [Suc i..<length bs]"
    using lt by (simp add: upt_conv_Cons)
  have sz: "0 \<le> memorySize (bs ! i)" "memorySize (bs ! i) < 2 ^ 53"
    using sizes lt by simp_all
  have p: "0 \<le> prefixSize bs i" using sizes by (intro prefixSize_nonneg) simp
  obtain c where c: "plusAssign (Num (prefixSize bs i)) (Some (JNum (memorySize (bs ! i)))) = Inr c"
    "geq c mb = (mb \<le> prefixSize bs (Suc i))"
    "prefixSize bs (Suc i) < mb \<longrightarrow> c = Num (prefixSize bs (Suc i))"
    using plusAssign_size [OF p Suc.prems(2) sz mb] lt by (auto simp: prefixSize_Suc)
  show ?case
  proof (cases "prefixSize bs (Suc i) < mb")
    case True
    then have small: "prefixSize bs (Suc i) < 2 ^ 53" using mb by simp
    have ih: "chooseLoop mb (map bodyObject bs) (Suc i) (Num (prefixSize bs (Suc i))) =
        Inr (Suc i + length (takeWhile (\<lambda>j. prefixSize bs (Suc j) < mb) [Suc i..<length bs]))"
      using Suc.hyps(1) [of "Suc i"] Suc.hyps(2) lt small by simp
    show ?thesis using lt True ih c
      by (subst chooseLoop.simps) (simp add: getProp_bodyObject_memorySize upt)
  next
    case False
    then show ?thesis using lt c
      by (subst chooseLoop.simps) (simp add: getProp_bodyObject_memorySize upt)
  qed
qed

lemma chooseLoop_le: "chooseLoop mb q i c = Inr n \<Longrightarrow> i \<le> length q \<Longrightarrow> n \<le> length q"
proof (induction mb q i c rule: chooseLoop.induct)
  case (1 maxBytes q numberToSend byteCount)
  show ?case
  proof (cases "numberToSend < length q")
    case False
    then show ?thesis using "1.prems" by (subst (asm) chooseLoop.simps) simp
  next
    case True
    from "1.prems"(1) obtain m c' where
      m: "getProp (q ! numberToSend) (ascii ''memorySize'') = Inr m"
      and c': "plusAssign byteCount m = Inr c'"
      by (subst (asm) chooseLoop.simps) (auto simp: True split: sum.splits)
    show ?thesis
    proof (cases "geq c' maxBytes")
      case g: True
      then have "n = numberToSend"
        using "1.prems"(1) True m c' by (subst (asm) chooseLoop.simps) simp
      then show ?thesis using True by simp
    next
      case g: False
      then have "chooseLoop maxBytes q (numberToSend + 1) c' = Inr n"
        using "1.prems"(1) True m c' by (subst (asm) chooseLoop.simps) simp
      then show ?thesis using "1.IH" [OF True m c' g] True by simp
    qed
  qed
qed

lemma chooseHowManyToExecute_bodies:
  assumes "\<forall>b\<in>set bs. 0 \<le> memorySize b \<and> memorySize b < 2 ^ 53" and "mb \<le> 2 ^ 53"
  shows "chooseHowManyToExecute mb (map bodyObject bs) =
     Inr (length (takeWhile (\<lambda>j. prefixSize bs (Suc j) < mb) [0..<length bs]))"
  using chooseLoop_bodies [OF assms, of 0] by (simp add: chooseHowManyToExecute_def prefixSize_def)

text \<open>
  Beyond these bounds the sum is rounded: with the sizes \<open>- 2 ^ 53\<close>, \<open>- 1\<close> and
  \<open>2 ^ 53 + 40000\<close> the second total is again \<open>- 2 ^ 53\<close>, the third reaches the budget of
  40000, and two entries are selected, where the exact totals stay below the budget.
\<close>

lemma chooseHowManyToExecute_rounds:
  "chooseHowManyToExecute 40000
     (map bodyObject
        [\<lparr>cleanedRequest = [], memorySize = - (2 ^ 53)\<rparr>, \<lparr>cleanedRequest = [], memorySize = - 1\<rparr>,
         \<lparr>cleanedRequest = [], memorySize = 2 ^ 53 + 40000\<rparr>]) = Inr 2"
  by code_simp


text \<open>
  C4. On a queue of batch entries whose sizes are lengths (not negative and below
  \<open>2 ^ 53\<close>, so that a double holds them exactly) and with a budget of at most \<open>2 ^ 53\<close>,
  \<open>chooseHowManyToExecute\<close> returns the number \<open>n\<close> of leading entries it includes: every
  included prefix stays below the budget, and when it stops before the end of the queue
  the next entry would make the running total reach or exceed the budget. For entry
  sizes 10000, 10000, 10000, 10000, 10000 and a budget of 25000 it returns 2.
\<close>

theorem chooseHowManyToExecute_greedy:
  assumes "\<forall>b\<in>set bs. 0 \<le> memorySize b \<and> memorySize b < 2 ^ 53" and "mb \<le> 2 ^ 53"
  shows "\<exists>n. chooseHowManyToExecute mb (map bodyObject bs) = Inr n \<and> n \<le> length bs
     \<and> (\<forall>j<n. sum_list (map memorySize (take (Suc j) bs)) < mb)
     \<and> (n < length bs \<longrightarrow> mb \<le> sum_list (map memorySize (take (Suc n) bs)))
     \<and> (map memorySize bs = [10000, 10000, 10000, 10000, 10000] \<and> mb = 25000 \<longrightarrow> n = 2)"
proof -
  let ?P = "\<lambda>j. prefixSize bs (Suc j) < mb"
  let ?n = "length (takeWhile ?P [0..<length bs])"
  have le: "?n \<le> length bs"
    using length_takeWhile_le [of ?P "[0..<length bs]"] by simp
  have below: "\<forall>j<?n. prefixSize bs (Suc j) < mb"
  proof (intro allI impI)
    fix j assume j: "j < ?n"
    then have "takeWhile ?P [0..<length bs] ! j \<in> set (takeWhile ?P [0..<length bs])"
      by (rule nth_mem)
    then have "?P (takeWhile ?P [0..<length bs] ! j)"
      by (rule set_takeWhileD [THEN conjunct2])
    moreover have "takeWhile ?P [0..<length bs] ! j = [0..<length bs] ! j"
      using j by (rule takeWhile_nth)
    moreover have "j < length bs" using j le by simp
    ultimately show "prefixSize bs (Suc j) < mb" by simp
  qed
  have stop: "?n < length bs \<longrightarrow> mb \<le> prefixSize bs (Suc ?n)"
  proof
    assume lt: "?n < length bs"
    then have "\<not> ?P ([0..<length bs] ! ?n)"
      using nth_length_takeWhile [of ?P "[0..<length bs]"] by simp
    then show "mb \<le> prefixSize bs (Suc ?n)" using lt by simp
  qed
  have example: "map memorySize bs = [10000, 10000, 10000, 10000, 10000] \<and> mb = 25000 \<longrightarrow> ?n = 2"
  proof
    assume a: "map memorySize bs = [10000, 10000, 10000, 10000, 10000] \<and> mb = 25000"
    then have len: "length bs = 5"
      using length_map [of memorySize bs] by simp
    have ps: "\<And>j. prefixSize bs j = sum_list (take j [10000, 10000, 10000, 10000, 10000])"
      using a by (simp add: prefixSize_def take_map [symmetric])
    have "\<not> 3 \<le> ?n"
    proof
      assume "3 \<le> ?n"
      then have "2 < ?n" by simp
      then have "prefixSize bs (Suc 2) < mb" using below by blast
      then show False using a by (simp add: ps numeral_3_eq_3 numeral_2_eq_2)
    qed
    moreover have "?n \<noteq> 0"
    proof
      assume z: "?n = 0"
      then have "mb \<le> prefixSize bs (Suc 0)" using stop len by simp
      then show False using a by (simp add: ps)
    qed
    moreover have "?n \<noteq> 1"
    proof
      assume z: "?n = 1"
      then have "mb \<le> prefixSize bs (Suc 1)" using stop len by simp
      then show False using a by (simp add: ps numeral_2_eq_2)
    qed
    ultimately show "?n = 2" by arith
  qed
  show ?thesis
    using chooseHowManyToExecute_bodies [OF assms] le below stop example
    unfolding prefixSize_def by blast
qed

theorem chooseHowManyToExecute_greedy_witness:
  "chooseHowManyToExecute 25000
     (map bodyObject
        [\<lparr>cleanedRequest = [], memorySize = 10000\<rparr>, \<lparr>cleanedRequest = [], memorySize = 10000\<rparr>,
         \<lparr>cleanedRequest = [], memorySize = 10000\<rparr>, \<lparr>cleanedRequest = [], memorySize = 10000\<rparr>,
         \<lparr>cleanedRequest = [], memorySize = 10000\<rparr>]) = Inr 2"
  using chooseHowManyToExecute_greedy [where mb = 25000 and bs =
        "[\<lparr>cleanedRequest = [], memorySize = 10000\<rparr>, \<lparr>cleanedRequest = [], memorySize = 10000\<rparr>,
         \<lparr>cleanedRequest = [], memorySize = 10000\<rparr>, \<lparr>cleanedRequest = [], memorySize = 10000\<rparr>,
         \<lparr>cleanedRequest = [], memorySize = 10000\<rparr>]"]
  by auto


subsection \<open>Payload size\<close>

lemma mapValues_toString_ok:
  "\<forall>v\<in>snd ` set request. \<exists>t. toString v = Inr t \<Longrightarrow>
   mapValues_toString request = Inr (map (\<lambda>(k, v). (k, JStr (projr (toString v)))) request)"
  by (induction request) auto

lemma mapValues_toString_Inr:
  "mapValues_toString request = Inr c \<Longrightarrow> \<forall>v\<in>snd ` set request. \<exists>t. toString v = Inr t"
proof (induction request arbitrary: c)
  case Nil
  then show ?case by simp
next
  case (Cons kv request)
  obtain k v where kv: "kv = (k, v)" by (cases kv)
  from Cons.prems obtain t c' where "toString v = Inr t" "mapValues_toString request = Inr c'"
    by (auto simp: kv split: sum.splits)
  then show ?case using Cons.IH [of c'] by (simp add: kv)
qed

lemma getBody_returns_iff:
  "(\<exists>b. getBody request = Inr b) \<longleftrightarrow> (\<forall>v\<in>snd ` set request. \<exists>t. toString v = Inr t)"
proof
  assume "\<exists>b. getBody request = Inr b"
  then obtain c where "mapValues_toString request = Inr c"
    by (auto simp: getBody_def split: sum.splits)
  then show "\<forall>v\<in>snd ` set request. \<exists>t. toString v = Inr t"
    by (rule mapValues_toString_Inr)
next
  assume "\<forall>v\<in>snd ` set request. \<exists>t. toString v = Inr t"
  then show "\<exists>b. getBody request = Inr b"
    by (simp add: getBody_def mapValues_toString_ok)
qed

lemma utf8_length_ascii: "\<forall>c\<in>set s. c < 128 \<Longrightarrow> utf8_length s = length s"
  by (induction s) auto

text \<open>
  C8, as stated, fails. For the request \<open>{p: v}\<close>, where \<open>v\<close> is the string of the one
  code unit 233 (U+00E9), \<open>memorySize\<close> is 9, the number of UTF-16 code units of the
  serialized mapping, while that text is 10 bytes long in UTF-8.
\<close>

theorem getBody_size_not_bytes:
  "getBody [(ascii ''p'', JStr [233])] = Inr \<lparr>cleanedRequest = [(ascii ''p'', JStr [233])], memorySize = 9\<rparr>
   \<and> int (utf8_length (stringify (JObj [(ascii ''p'', JStr [233])]))) = 10"
  by code_simp

text \<open>
  C8, amended. A value has a string form when \<open>v.toString()\<close> returns: a string is its own
  string form, \<open>null\<close> has none, and neither has an object with a \<open>toString\<close> property of
  its own. \<open>getBody\<close> returns exactly when every field value has a string form (it throws
  otherwise). It then replaces every field value by its string form, and \<open>memorySize\<close> is
  the length of the JSON serialization of that string-valued mapping in UTF-16 code
  units; this is the length in bytes when the serialization is ASCII only.
\<close>

theorem getBody_size_code_units:
  "toString (JStr s) = Inr s
   \<and> toString JNull = Inl TypeError
   \<and> (ascii ''toString'' \<in> fst ` set kvs \<longrightarrow> toString (JObj kvs) = Inl TypeError)
   \<and> ((\<exists>b. getBody request = Inr b) \<longleftrightarrow> (\<forall>v\<in>snd ` set request. \<exists>t. toString v = Inr t))
   \<and> (getBody request = Inr b \<longrightarrow>
        cleanedRequest b = map (\<lambda>(k, v). (k, JStr (projr (toString v)))) request
        \<and> memorySize b = int (length (stringify (JObj (cleanedRequest b))))
        \<and> ((\<forall>c\<in>set (stringify (JObj (cleanedRequest b))). c < 128) \<longrightarrow>
             memorySize b = int (utf8_length (stringify (JObj (cleanedRequest b))))))"
proof -
  have body: "cleanedRequest b = map (\<lambda>(k, v). (k, JStr (projr (toString v)))) request
        \<and> memorySize b = int (length (stringify (JObj (cleanedRequest b))))
        \<and> ((\<forall>c\<in>set (stringify (JObj (cleanedRequest b))). c < 128) \<longrightarrow>
             memorySize b = int (utf8_length (stringify (JObj (cleanedRequest b)))))"
    if r: "getBody request = Inr b"
  proof -
    have "\<forall>v\<in>snd ` set request. \<exists>t. toString v = Inr t"
      using r getBody_returns_iff [of request] by blast
    then have "mapValues_toString request = Inr (map (\<lambda>(k, v). (k, JStr (projr (toString v)))) request)"
      by (rule mapValues_toString_ok)
    then show ?thesis using r by (auto simp: getBody_def utf8_length_ascii)
  qed
  have pins: "toString (JStr s) = Inr s" "toString JNull = Inl TypeError"
    "ascii ''toString'' \<in> fst ` set kvs \<longrightarrow> toString (JObj kvs) = Inl TypeError"
    by (simp_all add: toString_def)
  show ?thesis
    using pins body getBody_returns_iff [of request] by blast
qed

theorem getBody_size_code_units_witness:
  "getBody [(ascii ''e'', JStr (ascii ''pv'')), (ascii ''n'', JNum 12)] =
     Inr \<lparr>cleanedRequest = [(ascii ''e'', JStr (ascii ''pv'')), (ascii ''n'', JStr (ascii ''12''))],
          memorySize = int (utf8_length (stringify (JObj [(ascii ''e'', JStr (ascii ''pv'')), (ascii ''n'', JStr (ascii ''12''))])))\<rparr>
   \<and> utf8_length (stringify (JObj [(ascii ''e'', JStr (ascii ''pv'')), (ascii ''n'', JStr (ascii ''12''))])) = 19
   \<and> getBody [(ascii ''o'', JObj [(ascii ''toString'', JStr (ascii ''x''))])] = Inl TypeError"
proof -
  let ?r = "[(ascii ''e'', JStr (ascii ''pv'')), (ascii ''n'', JNum 12)]"
  let ?c = "[(ascii ''e'', JStr (ascii ''pv'')), (ascii ''n'', JStr (ascii ''12''))]"
  have forms: "toString (JStr (ascii ''pv'')) = Inr (ascii ''pv'')" "toString (JNum 12) = Inr (ascii ''12'')"
    by code_simp+
  then have all: "\<forall>v\<in>snd ` set ?r. \<exists>t. toString v = Inr t" by simp
  have c: "map (\<lambda>(k, v). (k, JStr (projr (toString v)))) ?r = ?c" by (simp add: forms)
  have asc: "\<forall>c\<in>set (stringify (JObj ?c)). c < 128" by code_simp
  have len: "utf8_length (stringify (JObj ?c)) = 19" by code_simp
  note t = getBody_size_code_units [where request = ?r]
  from t all obtain b where b: "getBody ?r = Inr b" by blast
  from getBody_size_code_units [where request = ?r and b = b] b
  have b2: "cleanedRequest b = map (\<lambda>(k, v). (k, JStr (projr (toString v)))) ?r"
    and b3: "(\<forall>c\<in>set (stringify (JObj (cleanedRequest b))). c < 128) \<longrightarrow>
          memorySize b = int (utf8_length (stringify (JObj (cleanedRequest b))))"
    by blast+
  from b2 c have cb: "cleanedRequest b = ?c" by simp
  with b3 asc have "memorySize b = int (utf8_length (stringify (JObj ?c)))" by simp
  moreover have "getBody [(ascii ''o'', JObj [(ascii ''toString'', JStr (ascii ''x''))])] = Inl TypeError"
    by code_simp
  ultimately show ?thesis using cb b len by simp
qed

subsection \<open>The failsafe loop and what executeQueue leaves alone\<close>

lemma scrub_dropWhile:
  "scrub q = dropWhile (\<lambda>v. typeof v \<noteq> ascii ''string'' \<and> typeof v \<noteq> ascii ''object'') q"
  by (induction q) auto

lemma scrub_append_string: "scrub (q @ JStr x # r) = scrub q @ JStr x # r"
  by (induction q) auto

lemma scrub_append_object: "scrub (q @ JObj x # r) = scrub q @ JObj x # r"
  by (induction q) auto

lemma scrub_idem: "scrub (scrub q) = scrub q"
  by (induction q) auto

lemma executeQueue_outQueue: "outQueue (snd (executeQueue cfg s)) = scrub (outQueue s)"
  by (auto simp: executeQueue_def Let_def split: list.splits option.splits sum.splits)

lemma executeQueue_localStorage: "localStorage (snd (executeQueue cfg s)) = localStorage s"
  by (auto simp: executeQueue_def Let_def split: list.splits option.splits sum.splits)

lemma executeQueue_warnings: "warnings (snd (executeQueue cfg s)) = warnings s"
  by (auto simp: executeQueue_def Let_def split: list.splits option.splits sum.splits)

lemma executeQueue_beacon_error:
  "\<not> usePost cfg \<Longrightarrow> configCollectorUrl s \<noteq> None \<Longrightarrow>
   fst (executeQueue cfg s) = None
   \<or> (\<exists>v rest e. scrub (outQueue s) = v # rest \<and> ToString v = Inl e \<and> fst (executeQueue cfg s) = Some e)"
  by (auto simp: executeQueue_def Let_def split: list.splits option.splits sum.splits)

lemma set_scrub: "set (scrub q) \<subseteq> set q"
  by (induction q) auto

lemma persist_outQueue: "outQueue (snd (persist cfg s)) = outQueue s"
  by (simp add: persist_def attemptWriteLocalStorage_def)

lemma persist_warnings: "warnings (snd (persist cfg s)) = warnings s"
  by (simp add: persist_def attemptWriteLocalStorage_def)

lemma persist_executingQueue: "executingQueue (snd (persist cfg s)) = executingQueue s"
  by (simp add: persist_def attemptWriteLocalStorage_def)

lemma persist_configCollectorUrl: "configCollectorUrl (snd (persist cfg s)) = configCollectorUrl s"
  by (simp add: persist_def attemptWriteLocalStorage_def)

lemma persist_network: "network (snd (persist cfg s)) = network s"
  by (simp add: persist_def attemptWriteLocalStorage_def)

subsection \<open>Capacity\<close>

text \<open>
  C7. The constructor sets the byte budget to 40000. In POST mode, a request whose
  \<open>memorySize\<close> reaches the budget makes \<open>enqueueRequest\<close> return with a size warning
  added and nothing else changed: the queue keeps its length and contents, nothing is
  stored and nothing is sent.
\<close>

theorem enqueueRequest_oversize:
  "maxBytes (fst (OutQueueManager functionName namespace useLocalStorage0 usePost0 bufferSize0 cors lsa ls)) = 40000
   \<and> (usePost cfg \<and> getBody request = Inr b \<and> maxBytes cfg \<le> memorySize b \<longrightarrow>
        enqueueRequest cfg request url s =
          (None, s\<lparr>warnings := warnings s @ [sizeWarning (memorySize b) (maxBytes cfg)]\<rparr>))"
  by (simp add: enqueueRequest_def warn_def OutQueueManager_def Let_def)

lemma length_quote_replicate: "length (quote (replicate n 97)) = n + 2"
  by (simp add: quote_def quoteChar_def length_concat sum_list_replicate)

lemma getBody_replicate:
  "getBody [(k, JStr (replicate n 97))] =
     Inr \<lparr>cleanedRequest = [(k, JStr (replicate n 97))], memorySize = int (length (quote k) + n + 5)\<rparr>"
  by (simp add: getBody_def toString_def ascii_def length_quote_replicate)

theorem enqueueRequest_oversize_witness:
  "enqueueRequest (fst (postManager emptyStore)) longEvent collector (snd (postManager emptyStore)) =
     (None, (snd (postManager emptyStore))\<lparr>warnings := [sizeWarning 40008 40000]\<rparr>)
   \<and> outQueue (snd (postManager emptyStore)) = []"
proof -
  let ?cfg = "fst (postManager emptyStore)" and ?s = "snd (postManager emptyStore)"
  have cfg: "usePost ?cfg" "maxBytes ?cfg = 40000"
    by (simp_all add: postManager_def OutQueueManager_def Let_def)
  have s: "warnings ?s = []" "outQueue ?s = []"
    by (simp_all add: postManager_def OutQueueManager_def Let_def loadQueue_def emptyStore_def)
  have b: "getBody longEvent = Inr \<lparr>cleanedRequest = longEvent, memorySize = 40008\<rparr>"
    by (simp add: longEvent_def getBody_replicate) (simp add: quote_def quoteChar_def ascii_def)
  show ?thesis
    using enqueueRequest_oversize [THEN conjunct2, rule_format, of ?cfg longEvent
        "\<lparr>cleanedRequest = longEvent, memorySize = 40008\<rparr>" collector ?s] cfg s b
    by simp
qed

subsection \<open>Drain without a collector\<close>

text \<open>
  C9. When the queue is not empty after the failsafe loop and no collector URL has been
  set, \<open>executeQueue\<close> throws the configuration error. The state it leaves is the state
  it found with the scrubbed queue: \<open>executingQueue\<close> is not set, no network call is
  made, and the queue is kept.
\<close>

theorem executeQueue_no_collector:
  "scrub (outQueue s) \<noteq> [] \<Longrightarrow> configCollectorUrl s = None \<Longrightarrow>
   executeQueue cfg s = (Some NoCollector, s\<lparr>outQueue := scrub (outQueue s)\<rparr>)"
  by (auto simp: executeQueue_def Let_def split: list.splits)

theorem executeQueue_no_collector_witness:
  "outQueue (snd (getManager (storeWith getKey [JStr (ascii ''?e=pv'')]))) = [JStr (ascii ''?e=pv'')]
   \<and> configCollectorUrl (snd (getManager (storeWith getKey [JStr (ascii ''?e=pv'')]))) = None
   \<and> executeQueue (fst (getManager (storeWith getKey [JStr (ascii ''?e=pv'')])))
        (snd (getManager (storeWith getKey [JStr (ascii ''?e=pv'')]))) =
      (Some NoCollector,
       \<lparr>outQueue = [JStr (ascii ''?e=pv'')], executingQueue = False, configCollectorUrl = None,
        localStorage = storeWith getKey [JStr (ascii ''?e=pv'')], warnings = [], network = []\<rparr>)"
proof -
  let ?ls = "storeWith getKey [JStr (ascii ''?e=pv'')]"
  let ?s = "snd (getManager ?ls)"
  have s: "?s = \<lparr>outQueue = [JStr (ascii ''?e=pv'')], executingQueue = False, configCollectorUrl = None,
     localStorage = ?ls, warnings = [], network = []\<rparr>"
    by code_simp
  have h1: "scrub (outQueue ?s) \<noteq> []" unfolding s by simp
  have h2: "configCollectorUrl ?s = None" unfolding s by simp
  show ?thesis
    using executeQueue_no_collector [OF h1 h2, of "fst (getManager ?ls)"] unfolding s by simp
qed

subsection \<open>No capacity check in GET mode\<close>

text \<open>
  C10. In GET mode, whatever the length of the query string, \<open>enqueueRequest\<close> adds no
  warning and leaves the query string at the tail of the queue (twice, by its two calls
  of \<open>push\<close>), behind the old queue or behind what the failsafe loop of the drain it
  starts has left of it. It throws nothing of its own: an exception can only come out of
  the drain it starts, when the old head of the queue has no string form. The hypothesis
  is that \<open>getQuerystring\<close> returns the query string \<open>q\<close>.
\<close>

theorem enqueueRequest_beacon:
  "\<not> usePost cfg \<Longrightarrow> getQuerystring request = Inr q \<Longrightarrow>
   (fst (enqueueRequest cfg request url s) = None
    \<or> (\<exists>v e. v \<in> set (outQueue s) \<and> ToString v = Inl e \<and> fst (enqueueRequest cfg request url s) = Some e))
   \<and> warnings (snd (enqueueRequest cfg request url s)) = warnings s
   \<and> (outQueue (snd (enqueueRequest cfg request url s)) = outQueue s @ [JStr q, JStr q]
      \<or> outQueue (snd (enqueueRequest cfg request url s)) = scrub (outQueue s) @ [JStr q, JStr q])"
proof -
  assume get: "\<not> usePost cfg" and q: "getQuerystring request = Inr q"
  let ?s2 = "s\<lparr>outQueue := outQueue s @ [JStr q, JStr q], configCollectorUrl := Some (url @ path cfg)\<rparr>"
  let ?s3 = "snd (persist cfg ?s2)"
  have s3: "outQueue ?s3 = outQueue s @ [JStr q, JStr q]" "warnings ?s3 = warnings s"
    "configCollectorUrl ?s3 \<noteq> None"
    by (simp_all add: persist_outQueue persist_warnings persist_configCollectorUrl)
  have r: "enqueueRequest cfg request url s = executeQueue cfg ?s3
           \<or> enqueueRequest cfg request url s = (None, ?s3)"
    using get q by (simp add: enqueueRequest_def enqueueRest_def Let_def split_beta)
  then show ?thesis
  proof
    assume e: "enqueueRequest cfg request url s = executeQueue cfg ?s3"
    have sc: "scrub (outQueue ?s3) = scrub (outQueue s) @ [JStr q, JStr q]"
      using scrub_append_string [of "outQueue s" q "[JStr q]"] by (simp add: s3)
    have err: "fst (executeQueue cfg ?s3) = None
      \<or> (\<exists>v e. v \<in> set (outQueue s) \<and> ToString v = Inl e \<and> fst (executeQueue cfg ?s3) = Some e)"
    proof (cases "fst (executeQueue cfg ?s3)")
      case None
      then show ?thesis by simp
    next
      case (Some e')
      then obtain v rest where v: "scrub (outQueue ?s3) = v # rest" "ToString v = Inl e'"
        using executeQueue_beacon_error [OF get s3(3)] by auto
      have "v \<in> set (scrub (outQueue s))"
      proof (cases "scrub (outQueue s)")
        case Nil
        then show ?thesis using v sc by auto
      next
        case (Cons w ws)
        then show ?thesis using v sc by simp
      qed
      then have "v \<in> set (outQueue s)" using set_scrub by blast
      then show ?thesis using v(2) Some by blast
    qed
    show ?thesis
      using err sc s3 by (simp add: e executeQueue_outQueue executeQueue_warnings)
  next
    assume "enqueueRequest cfg request url s = (None, ?s3)"
    then show ?thesis using s3 by simp
  qed
qed

lemma encodeUnits_replicate: "encodeUnits (replicate n 97) = Inr (replicate n 97)"
  by (induction n) (simp_all add: uriUnescaped_def)

lemma getQuerystring_longEvent: "getQuerystring longEvent = Inr (ascii ''?e='' @ replicate 40000 97)"
  by (simp add: getQuerystring_def longEvent_def lowPriorityKeys_def encodeURIComponent_def
      hasOwnProperty_def encodeUnits_replicate ascii_def uriUnescaped_def)

theorem enqueueRequest_beacon_witness:
  "\<not> usePost (fst (getManager emptyStore))
   \<and> getQuerystring longEvent = Inr (ascii ''?e='' @ replicate 40000 97)
   \<and> maxBytes (fst (getManager emptyStore)) \<le> int (length (ascii ''?e='' @ replicate 40000 97))
   \<and> fst (enqueueRequest (fst (getManager emptyStore)) longEvent collector (snd (getManager emptyStore))) = None
   \<and> warnings (snd (enqueueRequest (fst (getManager emptyStore)) longEvent collector (snd (getManager emptyStore)))) = []
   \<and> outQueue (snd (enqueueRequest (fst (getManager emptyStore)) longEvent collector (snd (getManager emptyStore)))) =
        [JStr (ascii ''?e='' @ replicate 40000 97), JStr (ascii ''?e='' @ replicate 40000 97)]"
proof -
  let ?cfg = "fst (getManager emptyStore)" and ?s = "snd (getManager emptyStore)"
  have cfg: "\<not> usePost ?cfg" "maxBytes ?cfg = 40000"
    by (simp_all add: getManager_def OutQueueManager_def Let_def)
  have s: "warnings ?s = []" "outQueue ?s = []"
    by (simp_all add: getManager_def OutQueueManager_def Let_def loadQueue_def emptyStore_def)
  show ?thesis
    using enqueueRequest_beacon [OF cfg(1) getQuerystring_longEvent, of collector ?s] cfg s
    by (simp add: getQuerystring_longEvent ascii_def)
qed

text \<open>
  An exception out of the drain: a stored queue whose head is an object with a
  \<open>toString\<close> property of its own. The query string is appended all the same.
\<close>

lemma enqueueRequest_beacon_drain_throws:
  "fst (enqueueRequest (fst (getManager (storeWith getKey [JObj [(ascii ''toString'', JStr (ascii ''x''))]])))
        (event ''pv'') collector
        (snd (getManager (storeWith getKey [JObj [(ascii ''toString'', JStr (ascii ''x''))]])))) = Some TypeError
   \<and> outQueue (snd (enqueueRequest (fst (getManager (storeWith getKey [JObj [(ascii ''toString'', JStr (ascii ''x''))]])))
        (event ''pv'') collector
        (snd (getManager (storeWith getKey [JObj [(ascii ''toString'', JStr (ascii ''x''))]]))))) =
      [JObj [(ascii ''toString'', JStr (ascii ''x''))], JStr (ascii ''?e=pv''), JStr (ascii ''?e=pv'')]"
  by code_simp

subsection \<open>What the store holds after a write\<close>

lemma map_of_setItem: "map_of (setItem k v kvs) k = Some v"
  by (induction kvs) auto

lemma persist_stored:
  "useLocalStorage cfg \<Longrightarrow> writable (localStorage s) \<Longrightarrow>
   map_of (items (localStorage (snd (persist cfg s)))) (queueName cfg) = Some (Json (JArr (outQueue s)))"
  by (simp add: persist_def attemptWriteLocalStorage_def map_of_setItem)

lemma persist_disabled: "\<not> useLocalStorage cfg \<Longrightarrow> persist cfg s = (False, s)"
  by (simp add: persist_def)

lemma persist_writable: "writable (localStorage (snd (persist cfg s))) = writable (localStorage s)"
  by (simp add: persist_def attemptWriteLocalStorage_def)

subsection \<open>Outcomes of a send\<close>

text \<open>
  What a drain sends: in POST mode, on a queue of batch entries, one request whose body
  is the envelope of the first \<open>numberToSend\<close> field mappings (no body when that number
  is 0); in GET mode one image for the head entry.
\<close>

lemma scrub_bodies: "scrub (map bodyObject bs) = map bodyObject bs"
  by (cases bs) (simp_all add: bodyObject_def)

lemma cleanedRequests_bodies:
  "cleanedRequests (map bodyObject bs) = Inr (map (\<lambda>b. JObj (cleanedRequest b)) bs)"
  by (induction bs) (simp_all add: getProp_bodyObject_cleanedRequest)

lemma executeQueue_post_send:
  assumes "usePost cfg" and "configCollectorUrl s = Some collectorUrl"
    and "outQueue s = map bodyObject bs" and "bs \<noteq> []"
    and "chooseHowManyToExecute (maxBytes cfg) (outQueue s) = Inr n"
  shows "executeQueue cfg s =
    (None,
     s\<lparr>executingQueue := True,
       network := network s @
         [Xhr collectorUrl
            (if n > 0 then Some (stringify (batchRequest (map (\<lambda>b. JObj (cleanedRequest b)) (take n bs)))) else None)
            n True False]\<rparr>)"
proof -
  obtain b bs' where bs: "bs = b # bs'" using assms(4) by (cases bs) auto
  let ?q = "bodyObject b # map bodyObject bs'"
  have oq: "outQueue s = ?q" using assms(3) by (simp add: bs)
  have sc: "scrub (outQueue s) = ?q"
    using scrub_bodies [of bs] by (simp add: assms(3) bs)
  have q: "s\<lparr>outQueue := ?q\<rparr> = s"
    using oq by simp
  have ch: "chooseHowManyToExecute (maxBytes cfg) ?q = Inr n"
    using assms(5) by (simp add: oq)
  have nle: "n \<le> length bs"
    using chooseLoop_le [of "maxBytes cfg" "outQueue s" 0 "Num 0" n] assms(3,5)
    by (simp add: chooseHowManyToExecute_def)
  have "?q = map bodyObject bs" by (simp add: bs)
  then have "take n ?q = map bodyObject (take n bs)"
    by (simp only: take_map)
  then have cr: "cleanedRequests (take n ?q) = Inr (map (\<lambda>b. JObj (cleanedRequest b)) (take n bs))"
    using cleanedRequests_bodies [of "take n bs"] by simp
  have len: "length (take n bs) = n" using nle by simp
  show ?thesis
    unfolding executeQueue_def sc
    by (simp add: q Let_def assms(1,2) oq ch cr len del: length_take)
qed

lemma executeQueue_get_send:
  assumes "\<not> usePost cfg" and "configCollectorUrl s = Some collectorUrl"
    and "outQueue s = JStr q # rest"
  shows "executeQueue cfg s =
    (None, s\<lparr>executingQueue := True, network := network s @ [Img (collectorUrl @ q) False]\<rparr>)"
proof -
  have "s\<lparr>outQueue := JStr q # rest\<rparr> = s" using assms(3) by simp
  then show ?thesis using assms by (simp add: executeQueue_def Let_def)
qed

lemma executeQueue_empty_idle:
  "scrub (outQueue s) = [] \<Longrightarrow> executeQueue cfg s = (None, s\<lparr>outQueue := [], executingQueue := False\<rparr>)"
  by (simp add: executeQueue_def)

text \<open>
  C5. For the network call at index \<open>i\<close>, sent with \<open>numberToSend = k\<close>:
  a POST response with a status from 200 to 399 removes \<open>k\<close> entries from the head of the
  queue, writes the queue to the store (which then holds it, when storage is enabled and
  the store accepts the write) and goes on with \<open>executeQueue\<close> on that state; a
  response with a status of 400 or more leaves the queue as it is and resets
  \<open>executingQueue\<close>. For an image, \<open>onload\<close> does the same with one entry, and
  \<open>onerror\<close> leaves the queue as it is and resets \<open>executingQueue\<close>.
\<close>

theorem transport_outcome:
  assumes "i < length (network s)"
  shows
    "(network s ! i = Xhr u (Some b) k t False \<and> 200 \<le> status \<and> status < 400 \<longrightarrow>
        xhr_onreadystatechange cfg i 4 status s =
          executeQueue cfg
            ((snd (persist cfg (s\<lparr>outQueue := drop k (outQueue s)\<rparr>)))
               \<lparr>network := (network s)[i := Xhr u (Some b) k False True]\<rparr>)
        \<and> outQueue (snd (persist cfg (s\<lparr>outQueue := drop k (outQueue s)\<rparr>))) = drop k (outQueue s)
        \<and> (useLocalStorage cfg \<and> writable (localStorage s) \<longrightarrow>
             map_of (items (localStorage (snd (xhr_onreadystatechange cfg i 4 status s)))) (queueName cfg) =
               Some (Json (JArr (drop k (outQueue s))))))
     \<and> (network s ! i = Xhr u (Some b) k t False \<and> 400 \<le> status \<longrightarrow>
        xhr_onreadystatechange cfg i 4 status s =
          (None, s\<lparr>executingQueue := False, network := (network s)[i := Xhr u (Some b) k False True]\<rparr>))
     \<and> (network s ! i = Img u False \<longrightarrow>
        image_onload cfg i s =
          executeQueue cfg
            ((snd (persist cfg (s\<lparr>outQueue := drop 1 (outQueue s)\<rparr>)))\<lparr>network := (network s)[i := Img u True]\<rparr>)
        \<and> outQueue (snd (persist cfg (s\<lparr>outQueue := drop 1 (outQueue s)\<rparr>))) = drop 1 (outQueue s)
        \<and> (useLocalStorage cfg \<and> writable (localStorage s) \<longrightarrow>
             map_of (items (localStorage (snd (image_onload cfg i s)))) (queueName cfg) =
               Some (Json (JArr (drop 1 (outQueue s)))))
        \<and> image_onerror cfg i s =
            (None, s\<lparr>executingQueue := False, network := (network s)[i := Img u True]\<rparr>))"
proof -
  have xhr_ok: "xhr_onreadystatechange cfg i 4 status s =
      executeQueue cfg
        ((snd (persist cfg (s\<lparr>outQueue := drop k (outQueue s)\<rparr>)))
           \<lparr>network := (network s)[i := Xhr u (Some b) k False True]\<rparr>)"
    if "network s ! i = Xhr u (Some b) k t False" "200 \<le> status" "status < 400"
    using that assms by (simp add: xhr_onreadystatechange_def Let_def persist_network)
  have xhr_stored: "map_of (items (localStorage (snd (xhr_onreadystatechange cfg i 4 status s)))) (queueName cfg) =
      Some (Json (JArr (drop k (outQueue s))))"
    if "network s ! i = Xhr u (Some b) k t False" "200 \<le> status" "status < 400"
       "useLocalStorage cfg" "writable (localStorage s)"
    using that persist_stored [of cfg "s\<lparr>outQueue := drop k (outQueue s)\<rparr>"]
    by (simp add: xhr_ok executeQueue_localStorage)
  have xhr_rejected: "xhr_onreadystatechange cfg i 4 status s =
      (None, s\<lparr>executingQueue := False, network := (network s)[i := Xhr u (Some b) k False True]\<rparr>)"
    if "network s ! i = Xhr u (Some b) k t False" "400 \<le> status"
    using that assms by (simp add: xhr_onreadystatechange_def)
  have img_ok: "image_onload cfg i s =
      executeQueue cfg
        ((snd (persist cfg (s\<lparr>outQueue := drop 1 (outQueue s)\<rparr>)))\<lparr>network := (network s)[i := Img u True]\<rparr>)"
    if "network s ! i = Img u False"
    using that assms by (simp add: image_onload_def Let_def persist_network)
  have img_stored: "map_of (items (localStorage (snd (image_onload cfg i s)))) (queueName cfg) =
      Some (Json (JArr (drop 1 (outQueue s))))"
    if "network s ! i = Img u False" "useLocalStorage cfg" "writable (localStorage s)"
    using that persist_stored [of cfg "s\<lparr>outQueue := drop 1 (outQueue s)\<rparr>"]
    by (simp add: img_ok executeQueue_localStorage)
  have img_error: "image_onerror cfg i s =
      (None, s\<lparr>executingQueue := False, network := (network s)[i := Img u True]\<rparr>)"
    if "network s ! i = Img u False"
    using that assms by (simp add: image_onerror_def)
  show ?thesis
    using xhr_ok xhr_stored xhr_rejected img_ok img_stored img_error
    by (simp add: persist_outQueue)
qed


lemma xhr_timeout_idle:
  "i < length (network s) \<Longrightarrow> network s ! i = Xhr u b k True c \<Longrightarrow>
   xhr_timeout cfg i s =
     (None, s\<lparr>executingQueue := False, network := (network s)[i := Xhr u b k False True]\<rparr>)"
  by (simp add: xhr_timeout_def)

lemma xhr_status_below_200:
  "i < length (network s) \<Longrightarrow> network s ! i = Xhr u (Some b) k t False \<Longrightarrow> status < 200 \<Longrightarrow>
   xhr_onreadystatechange cfg i 4 status s =
     (None, s\<lparr>network := (network s)[i := Xhr u (Some b) k t True]\<rparr>)"
  by (simp add: xhr_onreadystatechange_def)

theorem transport_outcome_witness:
  "outQueue (snd (enqueueRequest (fst (postManager emptyStore)) (event ''pv'') collector (snd (postManager emptyStore)))) =
     [bodyObject \<lparr>cleanedRequest = event ''pv'', memorySize = 10\<rparr>, bodyObject \<lparr>cleanedRequest = event ''pv'', memorySize = 10\<rparr>]
   \<and> network (snd (enqueueRequest (fst (postManager emptyStore)) (event ''pv'') collector (snd (postManager emptyStore)))) =
     [Xhr (collector @ ascii ''/com.snowplowanalytics.snowplow/tp2'')
        (Some (stringify (batchRequest [JObj (event ''pv''), JObj (event ''pv'')]))) 2 True False]
   \<and> outQueue (snd (xhr_onreadystatechange (fst (postManager emptyStore)) 0 4 200
        (snd (enqueueRequest (fst (postManager emptyStore)) (event ''pv'') collector (snd (postManager emptyStore)))))) = []
   \<and> \<not> executingQueue (snd (xhr_onreadystatechange (fst (postManager emptyStore)) 0 4 200
        (snd (enqueueRequest (fst (postManager emptyStore)) (event ''pv'') collector (snd (postManager emptyStore))))))
   \<and> xhr_onreadystatechange (fst (postManager emptyStore)) 0 4 500
        (snd (enqueueRequest (fst (postManager emptyStore)) (event ''pv'') collector (snd (postManager emptyStore)))) =
       (None, (snd (enqueueRequest (fst (postManager emptyStore)) (event ''pv'') collector (snd (postManager emptyStore))))
          \<lparr>executingQueue := False,
           network := [Xhr (collector @ ascii ''/com.snowplowanalytics.snowplow/tp2'')
             (Some (stringify (batchRequest [JObj (event ''pv''), JObj (event ''pv'')]))) 2 False True]\<rparr>)"
proof -
  let ?cfg = "fst (postManager emptyStore)"
  let ?s1 = "snd (enqueueRequest ?cfg (event ''pv'') collector (snd (postManager emptyStore)))"
  let ?u = "collector @ ascii ''/com.snowplowanalytics.snowplow/tp2''"
  let ?b = "stringify (batchRequest [JObj (event ''pv''), JObj (event ''pv'')])"
  have q: "outQueue ?s1 =
     [bodyObject \<lparr>cleanedRequest = event ''pv'', memorySize = 10\<rparr>, bodyObject \<lparr>cleanedRequest = event ''pv'', memorySize = 10\<rparr>]"
    by code_simp
  have n: "network ?s1 = [Xhr ?u (Some ?b) 2 True False]"
    by code_simp
  have len: "0 < length (network ?s1)" and at: "network ?s1 ! 0 = Xhr ?u (Some ?b) 2 True False"
    by (simp_all add: n)
  note t = transport_outcome [OF len, of ?u ?b 2 True _ ?cfg]
  have ok: "xhr_onreadystatechange ?cfg 0 4 200 ?s1 =
      executeQueue ?cfg
        ((snd (persist ?cfg (?s1\<lparr>outQueue := drop 2 (outQueue ?s1)\<rparr>)))
           \<lparr>network := (network ?s1)[0 := Xhr ?u (Some ?b) 2 False True]\<rparr>)"
    using t [of 200] at by simp
  have rej: "xhr_onreadystatechange ?cfg 0 4 500 ?s1 =
      (None, ?s1\<lparr>executingQueue := False, network := (network ?s1)[0 := Xhr ?u (Some ?b) 2 False True]\<rparr>)"
    using t [of 500] at by simp
  have "outQueue (snd (xhr_onreadystatechange ?cfg 0 4 200 ?s1)) = []"
    unfolding ok by (simp add: executeQueue_outQueue persist_outQueue q)
  moreover have "\<not> executingQueue (snd (xhr_onreadystatechange ?cfg 0 4 200 ?s1))"
    unfolding ok by (simp add: executeQueue_def persist_outQueue q)
  ultimately show ?thesis using q n rej by simp
qed


subsection \<open>Persistence\<close>

text \<open>
  C3, as stated, fails for the failsafe loop. A GET manager with storage enabled loads
  the queue \<open>[7]\<close> from the store; \<open>executeQueue\<close> removes the number from the queue,
  and the store still holds \<open>[7]\<close>: nothing is written.
\<close>

theorem scrub_not_persisted:
  "useLocalStorage (fst (getManager (storeWith getKey [JNum 7])))
   \<and> queueName (fst (getManager (storeWith getKey [JNum 7]))) = getKey
   \<and> outQueue (snd (getManager (storeWith getKey [JNum 7]))) = [JNum 7]
   \<and> fst (executeQueue (fst (getManager (storeWith getKey [JNum 7]))) (snd (getManager (storeWith getKey [JNum 7])))) = None
   \<and> outQueue (snd (executeQueue (fst (getManager (storeWith getKey [JNum 7]))) (snd (getManager (storeWith getKey [JNum 7]))))) = []
   \<and> map_of (items (localStorage (snd (executeQueue (fst (getManager (storeWith getKey [JNum 7])))
        (snd (getManager (storeWith getKey [JNum 7]))))))) getKey = Some (Json (JArr [JNum 7]))"
  by code_simp

lemma enqueueRest_localStorage:
  "localStorage (snd (enqueueRest cfg request url s)) = localStorage s
   \<or> localStorage (snd (enqueueRest cfg request url s)) =
       localStorage (snd (persist cfg
         (s\<lparr>outQueue := outQueue s @ [projr (if usePost cfg then map_sum id bodyObject (getBody request)
                else map_sum id JStr (getQuerystring request))],
            configCollectorUrl := Some (url @ path cfg)\<rparr>)))"
  by (auto simp: enqueueRest_def Let_def split_beta executeQueue_localStorage split: sum.splits)

lemma enqueueRest_stored:
  assumes "(if usePost cfg then map_sum id bodyObject (getBody request)
            else map_sum id JStr (getQuerystring request)) = Inr e"
  shows "localStorage (snd (enqueueRest cfg request url s)) =
         localStorage (snd (persist cfg (s\<lparr>outQueue := outQueue s @ [e], configCollectorUrl := Some (url @ path cfg)\<rparr>)))"
  using assms by (simp add: enqueueRest_def Let_def split_beta executeQueue_localStorage)

text \<open>
  C3, amended. With storage enabled and a store that accepts the write, the store holds
  the updated queue after the append of \<open>enqueueRequest\<close> and after the removal of the
  accepted entries by the success callbacks (\<open>numberToSend\<close> entries for a POST
  response with a status from 200 to 399, one entry for an image that has loaded). With
  storage disabled these operations leave the store as it is.
\<close>

theorem store_rewritten_on_append_and_removal:
  "(useLocalStorage cfg \<and> writable (localStorage s) \<longrightarrow>
      (usePost cfg \<and> getBody request = Inr b \<and> memorySize b < maxBytes cfg \<longrightarrow>
         map_of (items (localStorage (snd (enqueueRequest cfg request url s)))) (queueName cfg) =
           Some (Json (JArr (outQueue s @ [bodyObject b, bodyObject b]))))
      \<and> (\<not> usePost cfg \<and> getQuerystring request = Inr q \<longrightarrow>
         map_of (items (localStorage (snd (enqueueRequest cfg request url s)))) (queueName cfg) =
           Some (Json (JArr (outQueue s @ [JStr q, JStr q]))))
      \<and> (i < length (network s) \<and> network s ! i = Xhr u (Some bd) k t False \<and> 200 \<le> status \<and> status < 400 \<longrightarrow>
         map_of (items (localStorage (snd (xhr_onreadystatechange cfg i 4 status s)))) (queueName cfg) =
           Some (Json (JArr (drop k (outQueue s)))))
      \<and> (i < length (network s) \<and> network s ! i = Img u False \<longrightarrow>
         map_of (items (localStorage (snd (image_onload cfg i s)))) (queueName cfg) =
           Some (Json (JArr (drop 1 (outQueue s))))))
   \<and> (\<not> useLocalStorage cfg \<longrightarrow>
        localStorage (snd (enqueueRequest cfg request url s)) = localStorage s
        \<and> localStorage (snd (xhr_onreadystatechange cfg i readyState status s)) = localStorage s
        \<and> localStorage (snd (image_onload cfg i s)) = localStorage s)"
proof -
  have post: "map_of (items (localStorage (snd (enqueueRequest cfg request url s)))) (queueName cfg) =
           Some (Json (JArr (outQueue s @ [bodyObject b, bodyObject b])))"
    if "useLocalStorage cfg" "writable (localStorage s)" "usePost cfg" "getBody request = Inr b"
       "memorySize b < maxBytes cfg"
    using that
      persist_stored [of cfg "s\<lparr>outQueue := outQueue s @ [bodyObject b, bodyObject b],
         configCollectorUrl := Some (url @ path cfg)\<rparr>"]
    by (simp add: enqueueRequest_def enqueueRest_stored [where e = "bodyObject b"])
  have get: "map_of (items (localStorage (snd (enqueueRequest cfg request url s)))) (queueName cfg) =
           Some (Json (JArr (outQueue s @ [JStr q, JStr q])))"
    if "useLocalStorage cfg" "writable (localStorage s)" "\<not> usePost cfg" "getQuerystring request = Inr q"
    using that
      persist_stored [of cfg "s\<lparr>outQueue := outQueue s @ [JStr q, JStr q],
         configCollectorUrl := Some (url @ path cfg)\<rparr>"]
    by (simp add: enqueueRequest_def enqueueRest_stored [where e = "JStr q"])
  have xhr: "map_of (items (localStorage (snd (xhr_onreadystatechange cfg i 4 status s)))) (queueName cfg) =
           Some (Json (JArr (drop k (outQueue s))))"
    if "useLocalStorage cfg" "writable (localStorage s)" "i < length (network s)"
       "network s ! i = Xhr u (Some bd) k t False" "200 \<le> status" "status < 400"
    using that persist_stored [of cfg "s\<lparr>outQueue := drop k (outQueue s)\<rparr>"]
    by (simp add: xhr_onreadystatechange_def Let_def executeQueue_localStorage)
  have img: "map_of (items (localStorage (snd (image_onload cfg i s)))) (queueName cfg) =
           Some (Json (JArr (drop 1 (outQueue s))))"
    if "useLocalStorage cfg" "writable (localStorage s)" "i < length (network s)" "network s ! i = Img u False"
    using that persist_stored [of cfg "s\<lparr>outQueue := drop 1 (outQueue s)\<rparr>"]
    by (simp add: image_onload_def Let_def executeQueue_localStorage)
  have off1: "localStorage (snd (enqueueRequest cfg request url s)) = localStorage s" if "\<not> useLocalStorage cfg"
    using that enqueueRest_localStorage [of cfg request url]
    by (auto simp: enqueueRequest_def warn_def persist_disabled split: sum.splits)
  have off2: "localStorage (snd (xhr_onreadystatechange cfg i readyState status s)) = localStorage s"
    if "\<not> useLocalStorage cfg"
    using that
    by (auto simp: xhr_onreadystatechange_def Let_def persist_disabled executeQueue_localStorage
        split: netcall.splits option.splits bool.splits)
  have off3: "localStorage (snd (image_onload cfg i s)) = localStorage s" if "\<not> useLocalStorage cfg"
    using that
    by (auto simp: image_onload_def Let_def persist_disabled executeQueue_localStorage
        split: netcall.splits bool.splits)
  show ?thesis using post get xhr img off1 off2 off3 by blast
qed


theorem store_rewritten_on_append_and_removal_witness:
  "map_of (items (localStorage (snd (enqueueRequest (fst (getManager emptyStore)) (event ''pv'') collector (snd (getManager emptyStore))))))
      (queueName (fst (getManager emptyStore))) =
     Some (Json (JArr [JStr (ascii ''?e=pv''), JStr (ascii ''?e=pv'')]))
   \<and> map_of (items (localStorage (snd (image_onload (fst (getManager emptyStore)) 0
        (snd (enqueueRequest (fst (getManager emptyStore)) (event ''pv'') collector (snd (getManager emptyStore))))))))
      (queueName (fst (getManager emptyStore))) =
     Some (Json (JArr [JStr (ascii ''?e=pv'')]))"
proof -
  let ?cfg = "fst (getManager emptyStore)" and ?s0 = "snd (getManager emptyStore)"
  let ?s1 = "snd (enqueueRequest ?cfg (event ''pv'') collector ?s0)"
  have cfg: "useLocalStorage ?cfg" "\<not> usePost ?cfg" by code_simp+
  have s0: "writable (localStorage ?s0)" "outQueue ?s0 = []" by code_simp+
  have q: "getQuerystring (event ''pv'') = Inr (ascii ''?e=pv'')" by code_simp
  have s1: "writable (localStorage ?s1)" "0 < length (network ?s1)"
    "network ?s1 ! 0 = Img (collector @ ascii ''/i?e=pv'') False"
    "outQueue ?s1 = [JStr (ascii ''?e=pv''), JStr (ascii ''?e=pv'')]"
    by code_simp+
  have a: "map_of (items (localStorage ?s1)) (queueName ?cfg) =
      Some (Json (JArr (outQueue ?s0 @ [JStr (ascii ''?e=pv''), JStr (ascii ''?e=pv'')])))"
    using store_rewritten_on_append_and_removal
        [where cfg = ?cfg and s = ?s0 and request = "event ''pv''" and q = "ascii ''?e=pv''" and url = collector]
      cfg s0(1) q by blast
  have b: "map_of (items (localStorage (snd (image_onload ?cfg 0 ?s1)))) (queueName ?cfg) =
      Some (Json (JArr (drop 1 (outQueue ?s1))))"
    using store_rewritten_on_append_and_removal
        [where cfg = ?cfg and s = ?s1 and i = 0 and u = "collector @ ascii ''/i?e=pv''"]
      cfg(1) s1(1,2,3) by blast
  show ?thesis using a b by (simp add: s0 s1)
qed

subsection \<open>Defects\<close>

lemma enqueueRequest_post_appends:
  assumes "usePost cfg" and "getBody request = Inr b" and "memorySize b < maxBytes cfg"
  shows "outQueue (snd (enqueueRequest cfg request url s)) = outQueue s @ [bodyObject b, bodyObject b]
      \<or> outQueue (snd (enqueueRequest cfg request url s)) = scrub (outQueue s) @ [bodyObject b, bodyObject b]"
proof -
  let ?s2 = "s\<lparr>outQueue := outQueue s @ [bodyObject b, bodyObject b],
                configCollectorUrl := Some (url @ path cfg)\<rparr>"
  let ?s3 = "snd (persist cfg ?s2)"
  have s3: "outQueue ?s3 = outQueue s @ [bodyObject b, bodyObject b]"
    by (simp add: persist_outQueue)
  have r: "enqueueRequest cfg request url s = executeQueue cfg ?s3
           \<or> enqueueRequest cfg request url s = (None, ?s3)"
    using assms by (simp add: enqueueRequest_def enqueueRest_def Let_def split_beta)
  then show ?thesis
  proof
    assume e: "enqueueRequest cfg request url s = executeQueue cfg ?s3"
    have "scrub (outQueue s @ [bodyObject b, bodyObject b]) = scrub (outQueue s) @ [bodyObject b, bodyObject b]"
      by (simp add: bodyObject_def scrub_append_object)
    then show ?thesis by (simp add: e executeQueue_outQueue s3)
  next
    assume "enqueueRequest cfg request url s = (None, ?s3)"
    then show ?thesis using s3 by simp
  qed
qed

text \<open>
  C1 on the code. One call of \<open>enqueueRequest\<close> with a page view, on an empty queue and
  with no drain started, leaves two entries in the queue and in the store, and a fresh
  manager over that store loads two entries: the request is pushed by the branch on
  \<open>usePost\<close> and again by the \<open>push\<close> that follows it.
\<close>

theorem enqueueRequest_pushes_twice:
  "outQueue (snd (batchingManager emptyStore)) = []
   \<and> queueName (fst (batchingManager emptyStore)) = postKey
   \<and> enqueueRequest (fst (batchingManager emptyStore)) (event ''pv'') collector (snd (batchingManager emptyStore)) =
      (None,
       \<lparr>outQueue = [bodyObject \<lparr>cleanedRequest = event ''pv'', memorySize = 10\<rparr>,
                    bodyObject \<lparr>cleanedRequest = event ''pv'', memorySize = 10\<rparr>],
        executingQueue = False,
        configCollectorUrl = Some (collector @ ascii ''/com.snowplowanalytics.snowplow/tp2''),
        localStorage =
          storeWith postKey [bodyObject \<lparr>cleanedRequest = event ''pv'', memorySize = 10\<rparr>,
                             bodyObject \<lparr>cleanedRequest = event ''pv'', memorySize = 10\<rparr>],
        warnings = [], network = []\<rparr>)
   \<and> outQueue (snd (batchingManager
        (localStorage (snd (enqueueRequest (fst (batchingManager emptyStore)) (event ''pv'') collector
           (snd (batchingManager emptyStore))))))) =
      [bodyObject \<lparr>cleanedRequest = event ''pv'', memorySize = 10\<rparr>,
       bodyObject \<lparr>cleanedRequest = event ''pv'', memorySize = 10\<rparr>]"
  by code_simp

text \<open>
  C2 on the code. After an \<open>enqueueRequest\<close> in GET mode the manager is draining, with one
  image in flight. A call of the exported \<open>executeQueue\<close> in that state creates a second
  image for the same entry, so two sends are in flight. The two callers inside the file
  test \<open>executingQueue\<close> first: in the same state a second \<open>enqueueRequest\<close> sends
  nothing, and the closure for \<open>bufferFlushers\<close> does nothing.
\<close>

theorem executeQueue_reentrant_send:
  "executingQueue (snd (enqueueRequest (fst (getManager emptyStore)) (event ''pv'') collector (snd (getManager emptyStore))))
   \<and> filter inFlight (network (snd (enqueueRequest (fst (getManager emptyStore)) (event ''pv'') collector (snd (getManager emptyStore))))) =
      [Img (collector @ ascii ''/i?e=pv'') False]
   \<and> filter inFlight (network (snd (executeQueue (fst (getManager emptyStore))
        (snd (enqueueRequest (fst (getManager emptyStore)) (event ''pv'') collector (snd (getManager emptyStore))))))) =
      [Img (collector @ ascii ''/i?e=pv'') False, Img (collector @ ascii ''/i?e=pv'') False]
   \<and> filter inFlight (network (snd (enqueueRequest (fst (getManager emptyStore)) (event ''se'') collector
        (snd (enqueueRequest (fst (getManager emptyStore)) (event ''pv'') collector (snd (getManager emptyStore))))))) =
      [Img (collector @ ascii ''/i?e=pv'') False]
   \<and> bufferFlusher (fst (getManager emptyStore))
        (snd (enqueueRequest (fst (getManager emptyStore)) (event ''pv'') collector (snd (getManager emptyStore)))) =
      (None, snd (enqueueRequest (fst (getManager emptyStore)) (event ''pv'') collector (snd (getManager emptyStore))))"
  by code_simp

text \<open>
  C6 on the code. A stored record \<open>[null, "?e=se"]\<close> loads as it is, and the first
  \<open>enqueueRequest\<close> starts the first drain. The failsafe loop keeps the leading \<open>null\<close>,
  whose \<open>typeof\<close> is \<open>object\<close>: in GET mode the drain requests the address ending in
  \<open>/inull\<close>; in POST mode, with a stored record of \<open>null\<close> and a batch entry,
  \<open>chooseHowManyToExecute\<close> throws a TypeError and nothing is sent.
\<close>

theorem failsafe_keeps_null:
  "queueName (fst (getManager (storeWith getKey [JNull, JStr (ascii ''?e=se'')]))) = getKey
   \<and> outQueue (snd (getManager (storeWith getKey [JNull, JStr (ascii ''?e=se'')]))) = [JNull, JStr (ascii ''?e=se'')]
   \<and> fst (enqueueRequest (fst (getManager (storeWith getKey [JNull, JStr (ascii ''?e=se'')]))) (event ''pv'') collector
        (snd (getManager (storeWith getKey [JNull, JStr (ascii ''?e=se'')])))) = None
   \<and> outQueue (snd (enqueueRequest (fst (getManager (storeWith getKey [JNull, JStr (ascii ''?e=se'')]))) (event ''pv'') collector
        (snd (getManager (storeWith getKey [JNull, JStr (ascii ''?e=se'')]))))) =
      [JNull, JStr (ascii ''?e=se''), JStr (ascii ''?e=pv''), JStr (ascii ''?e=pv'')]
   \<and> network (snd (enqueueRequest (fst (getManager (storeWith getKey [JNull, JStr (ascii ''?e=se'')]))) (event ''pv'') collector
        (snd (getManager (storeWith getKey [JNull, JStr (ascii ''?e=se'')]))))) =
      [Img (collector @ ascii ''/inull'') False]
   \<and> queueName (fst (postManager (storeWith postKey [JNull, bodyObject \<lparr>cleanedRequest = event ''se'', memorySize = 10\<rparr>]))) = postKey
   \<and> outQueue (snd (postManager (storeWith postKey [JNull, bodyObject \<lparr>cleanedRequest = event ''se'', memorySize = 10\<rparr>]))) =
      [JNull, bodyObject \<lparr>cleanedRequest = event ''se'', memorySize = 10\<rparr>]
   \<and> fst (enqueueRequest
        (fst (postManager (storeWith postKey [JNull, bodyObject \<lparr>cleanedRequest = event ''se'', memorySize = 10\<rparr>])))
        (event ''pv'') collector
        (snd (postManager (storeWith postKey [JNull, bodyObject \<lparr>cleanedRequest = event ''se'', memorySize = 10\<rparr>])))) =
      Some TypeError
   \<and> network (snd (enqueueRequest
        (fst (postManager (storeWith postKey [JNull, bodyObject \<lparr>cleanedRequest = event ''se'', memorySize = 10\<rparr>])))
        (event ''pv'') collector
        (snd (postManager (storeWith postKey [JNull, bodyObject \<lparr>cleanedRequest = event ''se'', memorySize = 10\<rparr>]))))) =
      [Xhr (collector @ ascii ''/com.snowplowanalytics.snowplow/tp2'') None 0 True False]"
  by code_simp

end
